theory Spec2Isabelle
  imports Complex_Main
begin

section \<open>Python values used by the notebooks\<close>

text \<open>
  Exceptions are values. The first three are raised by the interpreter itself in the code
  modelled here (\<open>ZeroDivisionError\<close> by \<open>/\<close> and \<open>%\<close>, \<open>OverflowError\<close> by an
  int-to-float conversion that does not fit, \<open>StopIteration\<close> by \<open>next\<close>);
  \<open>ValueError\<close> carries its message (an instance of a subclass of \<open>ValueError\<close> is a
  \<open>ValueError\<close> too); \<open>OtherError\<close> stands for any other exception class, by name.
\<close>

datatype py_exception =
    ZeroDivisionError
  | OverflowError
  | StopIteration
  | ValueError string
  | OtherError string

definition newline :: char where
  "newline = CHR 0x0A"

subsection \<open>Python floats\<close>

text \<open>
  A finite Python float is an IEEE 754 binary64 number; it is modelled by the rational
  number it denotes. \<open>round_double q\<close> is the binary64 number nearest to \<open>q\<close>, ties to
  even, with 53 significant bits and the exponent of the last place never below
  \<open>-1074\<close> (gradual underflow). Overflow is checked where an operation is used.
\<close>

fun bit_length :: "nat \<Rightarrow> nat" where
  "bit_length n = (if n = 0 then 0 else Suc (bit_length (n div 2)))"

declare bit_length.simps [simp del]

definition pow2 :: "int \<Rightarrow> rat" where
  "pow2 e = (if 0 \<le> e then 2 ^ nat e else 1 / 2 ^ nat (- e))"

definition ilog2 :: "rat \<Rightarrow> int" where
  "ilog2 a = (let (n, d) = quotient_of a;
                  k = int (bit_length (nat n)) - int (bit_length (nat d))
              in if pow2 k \<le> a then k else k - 1)"

definition round_half_even :: "rat \<Rightarrow> int" where
  "round_half_even q = (let f = \<lfloor>q\<rfloor>; r = q - of_int f in
     if r < 1 / 2 then f else if 1 / 2 < r then f + 1 else if even f then f else f + 1)"

definition round_double :: "rat \<Rightarrow> rat" where
  "round_double q = (if q = 0 then 0 else
     let a = \<bar>q\<bar>; e = max (- 1074) (ilog2 a - 52); m = round_half_even (a / pow2 e)
     in sgn q * of_int m * pow2 e)"

definition max_double :: rat where
  "max_double = (2 ^ 53 - 1) * 2 ^ 971"

text \<open>
  \<open>a / b\<close> on two Python ints: the correctly rounded quotient, \<open>ZeroDivisionError\<close> for
  a zero divisor, \<open>OverflowError\<close> when the quotient is too large for a float.
\<close>

definition py_truediv :: "int \<Rightarrow> int \<Rightarrow> py_exception + rat" where
  "py_truediv a b =
     (if b = 0 then Inl ZeroDivisionError
      else let r = round_double (of_int a / of_int b)
           in if max_double < \<bar>r\<bar> then Inl OverflowError else Inr r)"

text \<open>\<open>x - y\<close> on two floats (the clock readings and intervals here stay far from overflow).\<close>

definition float_sub :: "rat \<Rightarrow> rat \<Rightarrow> rat" where
  "float_sub x y = round_double (x - y)"

text \<open>\<open>int(x)\<close> on a finite float truncates towards zero.\<close>

definition py_int :: "rat \<Rightarrow> int" where
  "py_int q = (if 0 \<le> q then \<lfloor>q\<rfloor> else - \<lfloor>- q\<rfloor>)"

text \<open>\<open>max(x, 0)\<close>: the first argument unless the second is greater.\<close>

definition py_max0 :: "rat \<Rightarrow> rat" where
  "py_max0 x = (if x < 0 then 0 else x)"

subsection \<open>Strings and text files\<close>

text \<open>\<open>s.split('\n')\<close>: the pieces between newline characters; always at least one piece.\<close>

fun split_newline :: "string \<Rightarrow> string list" where
  "split_newline [] = [[]]"
| "split_newline (c # cs) =
     (if c = newline then [] # split_newline cs
      else (case split_newline cs of [] \<Rightarrow> [[c]] | p # ps \<Rightarrow> (c # p) # ps))"

text \<open>
  Iterating over a text file yields its lines, each with its terminating newline; only
  the last line may lack one. The file is given by its text as \<open>read()\<close> returns it.
\<close>

fun file_lines :: "string \<Rightarrow> string list" where
  "file_lines [] = []"
| "file_lines (c # cs) =
     (if c = newline then [c] # file_lines cs
      else (case file_lines cs of [] \<Rightarrow> [[c]] | l # ls \<Rightarrow> (c # l) # ls))"

text \<open>\<open>row.rstrip('\n')\<close> removes every trailing newline character.\<close>

definition rstrip_newline :: "string \<Rightarrow> string" where
  "rstrip_newline s = rev (dropWhile (\<lambda>c. c = newline) (rev s))"

definition digit_char :: "nat \<Rightarrow> char" where
  "digit_char d = ''0123456789'' ! d"

fun str_of_nat :: "nat \<Rightarrow> string" where
  "str_of_nat n =
     (if n < 10 then [digit_char n] else str_of_nat (n div 10) @ [digit_char (n mod 10)])"

declare str_of_nat.simps [simp del]

section \<open>The traffic replay worker \<open>invoke_endpoint\<close>\<close>

text \<open>
  What the worker does to the outside world, in order: a call of \<open>runtime_client\<close> with a
  payload, a line printed, a call of \<open>sleep\<close> with a duration.
\<close>

datatype event = Invoke string | Print string | Sleep rat

definition ten_hours_in_sec :: int where
  "ten_hours_in_sec = 10 * 60 * 60"

text \<open>\<open>count = len(f.read().split('\n')) - 2\<close>\<close>

definition row_count :: "string \<Rightarrow> int" where
  "row_count text = int (length (split_newline text)) - 2"

text \<open>
  \<open>int(count/ten_hours_in_sec*900)\<close>: a true division of two ints, a float product and a
  truncation. A product beyond the largest float is \<open>inf\<close>, on which \<open>int\<close> raises
  \<open>OverflowError\<close>.
\<close>

definition progress_every :: "int \<Rightarrow> py_exception + int" where
  "progress_every count =
     (case py_truediv count ten_hours_in_sec of
        Inl e \<Rightarrow> Inl e
      | Inr rate \<Rightarrow>
          let p = round_double (rate * 900)
          in if max_double < \<bar>p\<bar> then Inl OverflowError else Inr (py_int p))"

text \<open>
  One iteration of the \<open>for ind, row in enumerate(f)\<close> loop, for the row \<open>row\<close> with
  index \<open>ind\<close>. \<open>runtime_client k payload\<close> is the outcome of the \<open>k\<close>-th call of the
  endpoint (an exception or a response), \<open>clock k\<close> the value of the \<open>k\<close>-th call of
  \<open>time()\<close>; \<open>tick\<close> counts the calls of \<open>time()\<close> made so far. The result is the events
  of the iteration and the exception raised in it, if any.
\<close>

definition body ::
  "(nat \<Rightarrow> string \<Rightarrow> py_exception + 'r) \<Rightarrow> (nat \<Rightarrow> rat) \<Rightarrow> int \<Rightarrow> rat \<Rightarrow>
   nat \<Rightarrow> nat \<Rightarrow> string \<Rightarrow> event list \<times> py_exception option" where
  "body runtime_client clock count sleep_time ind tick row =
     (let start_time = clock tick;
          payload = rstrip_newline row
      in case runtime_client ind payload of
           Inl e \<Rightarrow> ([Invoke payload], Some e)
         | Inr response \<Rightarrow>
             (case progress_every count of
                Inl e \<Rightarrow> ([Invoke payload], Some e)
              | Inr m \<Rightarrow>
                  if m = 0 then ([Invoke payload], Some ZeroDivisionError)
                  else
                    let printed =
                          (if (int ind + 1) mod m = 0
                           then [Print (''Finished sending '' @ str_of_nat (ind + 1) @ '' records.'')]
                           else []);
                        elapsed = float_sub (clock (tick + 1)) start_time;
                        pause = py_max0 (float_sub sleep_time elapsed)
                    in (Invoke payload # printed @ [Sleep pause], None)))"

text \<open>The loop: the rows in order, stopping at the first exception.\<close>

fun replay ::
  "(nat \<Rightarrow> string \<Rightarrow> py_exception + 'r) \<Rightarrow> (nat \<Rightarrow> rat) \<Rightarrow> int \<Rightarrow> rat \<Rightarrow>
   nat \<Rightarrow> nat \<Rightarrow> string list \<Rightarrow> event list \<times> py_exception option" where
  "replay runtime_client clock count sleep_time ind tick [] = ([], None)"
| "replay runtime_client clock count sleep_time ind tick (row # rows) =
     (case body runtime_client clock count sleep_time ind tick row of
        (evs, Some e) \<Rightarrow> (evs, Some e)
      | (evs, None) \<Rightarrow>
          (case replay runtime_client clock count sleep_time (ind + 1) (tick + 2) rows of
             (evs', r) \<Rightarrow> (evs @ evs', r)))"

text \<open>\<open>sleep_time = ten_hours_in_sec/count\<close>\<close>

definition sleep_interval :: "string \<Rightarrow> py_exception + rat" where
  "sleep_interval text = py_truediv ten_hours_in_sec (row_count text)"

text \<open>
  \<open>invoke_endpoint(ep_name, file_name, runtime_client)\<close>, with the file given by its text
  (the same at both \<open>open\<close> calls). \<open>ep_name\<close> is not used by the body. The first
  \<open>time()\<close> call is \<open>pre_time\<close>, so the loop starts at tick 1.
\<close>

definition invoke_endpoint ::
  "(nat \<Rightarrow> string \<Rightarrow> py_exception + 'r) \<Rightarrow> (nat \<Rightarrow> rat) \<Rightarrow> string \<Rightarrow>
   event list \<times> (py_exception + unit)" where
  "invoke_endpoint runtime_client clock text =
     (case sleep_interval text of
        Inl e \<Rightarrow> ([], Inl e)
      | Inr sleep_time \<Rightarrow>
          (case file_lines text of
             [] \<Rightarrow> ([], Inl StopIteration)
           | header # rows \<Rightarrow>
               (case replay runtime_client clock (row_count text) sleep_time 0 1 rows of
                  (evs, Some e) \<Rightarrow> (evs, Inl e)
                | (evs, None) \<Rightarrow> (evs @ [Print ''Done!''], Inr ()))))"

text \<open>The payloads sent to the endpoint, in the order of the calls.\<close>

fun invocations :: "event list \<Rightarrow> string list" where
  "invocations [] = []"
| "invocations (Invoke p # evs) = p # invocations evs"
| "invocations (_ # evs) = invocations evs"

text \<open>The durations passed to \<open>sleep\<close>, in order.\<close>

fun sleeps :: "event list \<Rightarrow> rat list" where
  "sleeps [] = []"
| "sleeps (Sleep d # evs) = d # sleeps evs"
| "sleeps (_ # evs) = sleeps evs"

text \<open>Every line after the first line of the file.\<close>

definition data_rows :: "string \<Rightarrow> string list" where
  "data_rows text = tl (file_lines text)"

subsection \<open>Example inputs\<close>

text \<open>A text file whose lines all end with a newline, from its lines.\<close>

definition terminated :: "string list \<Rightarrow> string" where
  "terminated ls = concat (map (\<lambda>l. l @ [newline]) ls)"

text \<open>An endpoint that answers every call, one that fails at its \<open>n\<close>-th call, a clock that stands still.\<close>

definition always_ok :: "nat \<Rightarrow> string \<Rightarrow> py_exception + unit" where
  "always_ok k payload = Inr ()"

definition fails_at :: "nat \<Rightarrow> nat \<Rightarrow> string \<Rightarrow> py_exception + unit" where
  "fails_at n k payload = (if k = n then Inl (OtherError ''EndpointConnectionError'') else Inr ())"

definition frozen_clock :: "nat \<Rightarrow> rat" where
  "frozen_clock k = 0"

text \<open>
  A header with no newline after it; a header and two rows, each line terminated; the same
  without the last newline; a header and three rows, and a header and forty numbered rows,
  each line terminated.
\<close>

definition header_only_file :: string where
  "header_only_file = ''x,y''"

definition two_row_file :: string where
  "two_row_file = terminated [''x,y'', ''1,2'', ''3,4'']"

definition unterminated_file :: string where
  "unterminated_file = terminated [''x,y'', ''1,2''] @ ''3,4''"

definition three_row_file :: string where
  "three_row_file = terminated [''x,y'', ''1,2'', ''3,4'', ''5,6'']"

definition forty_row_file :: string where
  "forty_row_file = terminated (''id'' # map str_of_nat [0..<40])"

section \<open>The inference handler \<open>input_fn\<close>\<close>

text \<open>A table cell as pandas holds it: missing, a number or a string.\<close>

datatype cell = NaN | Num rat | Str string

text \<open>
  A \<open>DataFrame\<close>: the column labels; for each column whether its dtype is \<open>object\<close>; and
  the rows, each with its position in the data read, which is its label in the default
  index.
\<close>

record dataframe =
  df_columns :: "string list"
  df_object :: "bool list"
  df_rows :: "(nat \<times> cell list) list"

text \<open>\<open>s.replace(c, new)\<close> for a pattern \<open>c\<close> of one character.\<close>

definition str_replace_char :: "char \<Rightarrow> string \<Rightarrow> string \<Rightarrow> string" where
  "str_replace_char c new s = concat (map (\<lambda>x. if x = c then new else [x]) s)"

text \<open>\<open>sep.join(fields)\<close>\<close>

fun join :: "string \<Rightarrow> string list \<Rightarrow> string" where
  "join sep [] = []"
| "join sep [f] = f"
| "join sep (f # g # fs) = f @ sep @ join sep (g # fs)"

text \<open>
  \<open>pd.DataFrame(X).to_csv(X_csv, header=False, index=False)\<close> followed by
  \<open>X_csv.getvalue()\<close>: one line per row of the matrix, the fields separated by commas, each
  line ended by a newline. \<open>float_text\<close> is the text pandas writes for one float.
\<close>

definition matrix_to_csv :: "(rat \<Rightarrow> string) \<Rightarrow> rat list list \<Rightarrow> string" where
  "matrix_to_csv float_text X =
     concat (map (\<lambda>row. join '','' (map float_text row) @ [newline]) X)"

text \<open>
  The body of the \<open>text/csv\<close> branch up to \<open>req_transformed\<close>. The calls into pandas and
  into the unpickled \<open>preprocess\<close> object are parameters, each returning its result or the
  exception it raises: \<open>read_csv\<close> is \<open>pd.read_csv(StringIO(request_body), header=None)\<close>,
  \<open>transform\<close> is \<open>preprocess.transform\<close>.
\<close>

definition req_transformed ::
  "(string \<Rightarrow> py_exception + dataframe) \<Rightarrow> (dataframe \<Rightarrow> py_exception + rat list list) \<Rightarrow>
   (rat \<Rightarrow> string) \<Rightarrow> string \<Rightarrow> py_exception + string" where
  "req_transformed read_csv transform float_text request_body =
     (case read_csv request_body of
        Inl e \<Rightarrow> Inl e
      | Inr df \<Rightarrow>
          (case transform df of
             Inl e \<Rightarrow> Inl e
           | Inr X \<Rightarrow> Inr (str_replace_char newline [] (matrix_to_csv float_text X))))"

text \<open>
  \<open>input_fn(request_body, content_type)\<close>; \<open>csv_to_dmatrix\<close> is
  \<open>xgb_encoders.csv_to_dmatrix\<close>.
\<close>

definition input_fn ::
  "(string \<Rightarrow> py_exception + dataframe) \<Rightarrow> (dataframe \<Rightarrow> py_exception + rat list list) \<Rightarrow>
   (rat \<Rightarrow> string) \<Rightarrow> (string \<Rightarrow> py_exception + 'd) \<Rightarrow> string \<Rightarrow> string \<Rightarrow>
   py_exception + 'd" where
  "input_fn read_csv transform float_text csv_to_dmatrix request_body content_type =
     (if content_type = ''text/csv''
      then (case req_transformed read_csv transform float_text request_body of
              Inl e \<Rightarrow> Inl e
            | Inr s \<Rightarrow> csv_to_dmatrix s)
      else Inl (ValueError (''Content type '' @ content_type @ '' is not supported.'')))"

subsection \<open>Example library behaviour\<close>

text \<open>
  A \<open>read_csv\<close> that, as pandas does, raises \<open>EmptyDataError\<close> (a subclass of
  \<open>ValueError\<close>) on a buffer with nothing to parse, and otherwise yields a frame with one
  row for each non-empty line, the line as its only cell; a \<open>transform\<close> that yields two
  numbers for each row; a text for each float; an encoder that returns the text it is
  given.
\<close>

definition read_csv_example :: "string \<Rightarrow> py_exception + dataframe" where
  "read_csv_example request_body =
     (let ls = filter (\<lambda>l. l \<noteq> []) (split_newline request_body)
      in if ls = [] then Inl (ValueError ''No columns to parse from file'')
         else Inr \<lparr>df_columns = [''0''], df_object = [True],
                   df_rows = zip [0..<length ls] (map (\<lambda>l. [Str l]) ls)\<rparr>)"

definition transform_example :: "dataframe \<Rightarrow> py_exception + rat list list" where
  "transform_example df = Inr (map (\<lambda>(i, r). [of_nat i, of_nat (length r)]) (df_rows df))"

definition float_text_example :: "rat \<Rightarrow> string" where
  "float_text_example x = (if x = 0 then ''0.0'' else if x = 1 then ''1.0'' else ''2.0'')"

definition csv_to_dmatrix_example :: "string \<Rightarrow> py_exception + string" where
  "csv_to_dmatrix_example s = Inr s"

text \<open>
  A \<open>transform\<close> that, as the fitted imputer does on a value it cannot take for a number,
  raises a \<open>ValueError\<close> on a frame that holds the string \<open>?\<close>, and otherwise does as
  the one above.
\<close>

definition transform_strict :: "dataframe \<Rightarrow> py_exception + rat list list" where
  "transform_strict df =
     (if list_ex (\<lambda>(i, r). Str ''?'' \<in> set r) (df_rows df)
      then Inl (ValueError ''Cannot use mean strategy with non-numeric data'')
      else transform_example df)"

section \<open>The data preparation notebook\<close>

definition column_names :: "string list" where
  "column_names =
     [''age'', ''workclass'', ''fnlwgt'', ''education'', ''education-num'', ''marital-status'',
      ''occupation'', ''relationship'', ''race'', ''sex'', ''capital-gain'', ''capital-loss'',
      ''hours-per-week'', ''native-country'', ''income'']"

text \<open>
  The dtypes that pandas infers for the columns of a table, as far as the notebook looks at
  them: a column is of dtype \<open>object\<close> when it holds a string, and also when the table has
  no rows; a column of numbers and missing values is numeric.
\<close>

definition holds_string :: "cell list list \<Rightarrow> nat \<Rightarrow> bool" where
  "holds_string table j =
     list_ex (\<lambda>r. j < length r \<and> (case r ! j of Str s \<Rightarrow> True | _ \<Rightarrow> False)) table"

definition object_dtypes :: "nat \<Rightarrow> cell list list \<Rightarrow> bool list" where
  "object_dtypes width table = map (\<lambda>j. table = [] \<or> holds_string table j) [0..<width]"

text \<open>
  \<open>pd.read_csv('data/adult.csv', names = column_names)\<close>, from the records that the
  parser finds in the file, each the list of its fields (missing, a number or a string).
  The frame has one column for each name and one cell in each column for each record. The
  parser expects as many fields as there are names, or as the first record has if that
  is more; a record with fewer fields is filled up with \<open>NaN\<close>, a record with more is a
  \<open>ParserError\<close> (a \<open>ValueError\<close>; its message is shortened here). When the first
  record has more fields than there are names, its leading fields and those of the other
  records become the index and are not among the columns. Each row is kept with the
  number of its record, which is its index label in the other case.
\<close>

definition read_csv_names :: "string list \<Rightarrow> cell list list \<Rightarrow> py_exception + dataframe" where
  "read_csv_names names parsed =
     (let width = max (length names) (case parsed of [] \<Rightarrow> 0 | r # _ \<Rightarrow> length r);
          table = map (\<lambda>r. drop (width - length names) (r @ replicate (width - length r) NaN))
                    parsed
      in if list_ex (\<lambda>r. width < length r) parsed
         then Inl (ValueError ''Error tokenizing data'')
         else Inr \<lparr>df_columns = names,
                   df_object = object_dtypes (length names) table,
                   df_rows = enumerate 0 table\<rparr>)"

text \<open>
  \<open>df.replace(old, new, inplace=True)\<close>. The dtypes follow the new values: a column
  whose strings were all replaced by \<open>NaN\<close> is numeric afterwards.
\<close>

definition replace_value :: "cell \<Rightarrow> cell \<Rightarrow> dataframe \<Rightarrow> dataframe" where
  "replace_value old new df =
     (let replaced = map (\<lambda>(i, r). (i, map (\<lambda>c. if c = old then new else c) r)) (df_rows df)
      in df\<lparr>df_object := object_dtypes (length (df_columns df)) (map snd replaced),
             df_rows := replaced\<rparr>)"

text \<open>\<open>df.dtypes[j] == "object"\<close>\<close>

definition is_object :: "dataframe \<Rightarrow> nat \<Rightarrow> bool" where
  "is_object df j = (j < length (df_object df) \<and> df_object df ! j)"

text \<open>
  \<open>.str.replace(" ", "")\<close> on one cell: a string loses its spaces, and a cell that is not a
  string becomes \<open>NaN\<close>.
\<close>

fun str_replace_cell :: "cell \<Rightarrow> cell" where
  "str_replace_cell (Str s) = Str (str_replace_char CHR '' '' [] s)"
| "str_replace_cell _ = NaN"

text \<open>
  \<open>cols = df.columns[df.dtypes == "object"]\<close>, then
  \<open>for i in cols: df[i] = df[i].str.replace(" ", "")\<close>
\<close>

definition strip_object_columns :: "dataframe \<Rightarrow> dataframe" where
  "strip_object_columns df =
     df\<lparr>df_rows :=
          map (\<lambda>(i, r). (i, map (\<lambda>(j, c). if is_object df j then str_replace_cell c else c)
                                (enumerate 0 r)))
              (df_rows df)\<rparr>"

text \<open>
  The frame after the first four statements of the pre-processing cell: loaded, \<open>'?'\<close>
  replaced by \<open>NaN\<close>, spaces removed from the string columns.
\<close>

definition load_adult :: "cell list list \<Rightarrow> py_exception + dataframe" where
  "load_adult parsed =
     (case read_csv_names column_names parsed of
        Inl e \<Rightarrow> Inl e
      | Inr df \<Rightarrow> Inr (strip_object_columns (replace_value (Str ''?'') NaN df)))"

subsection \<open>The split of scikit-learn\<close>

text \<open>\<open>x[i], x[j] = x[j], x[i]\<close>\<close>

definition swap :: "nat \<Rightarrow> nat \<Rightarrow> 'a list \<Rightarrow> 'a list" where
  "swap i j x = x[i := x ! j, j := x ! i]"

text \<open>
  The shuffle of numpy's \<open>RandomState\<close>,
  \<open>for i in reversed(range(1, n)): j = random_interval(i); x[i], x[j] = x[j], x[i]\<close>,
  from position \<open>i\<close> downwards. The generator is not modelled: \<open>draw i\<close> stands for the
  number it yields at position \<open>i\<close>. \<open>random_interval(i)\<close> yields a number from 0 to \<open>i\<close>,
  so \<open>draw i\<close> is taken modulo \<open>i + 1\<close>.
\<close>

fun shuffle :: "(nat \<Rightarrow> nat) \<Rightarrow> nat \<Rightarrow> 'a list \<Rightarrow> 'a list" where
  "shuffle draw 0 x = x"
| "shuffle draw (Suc i) x = shuffle draw i (swap (Suc i) (draw (Suc i) mod Suc (Suc i)) x)"

text \<open>
  \<open>np.random.RandomState(seed).permutation(n)\<close>: \<open>np.arange(n)\<close>, shuffled.
  \<open>random_interval seed n i\<close> is the number drawn at position \<open>i\<close> by a generator freshly
  seeded with \<open>seed\<close> that shuffles \<open>n\<close> elements.
\<close>

definition permutation :: "(nat \<Rightarrow> nat \<Rightarrow> nat \<Rightarrow> nat) \<Rightarrow> nat \<Rightarrow> nat \<Rightarrow> nat list" where
  "permutation random_interval seed n = shuffle (random_interval seed n) (n - 1) [0..<n]"

text \<open>
  The positions that \<open>train_test_split(..., test_size=..., random_state=...)\<close> selects for
  \<open>n_samples\<close> samples, first those of the training part and then those of the test part.
  A float \<open>test_size\<close> must lie strictly between 0 and 1;
  \<open>n_test = ceil(test_size * n_samples)\<close>, a float product, and
  \<open>n_train = n_samples - n_test\<close>; a training part that would be empty is a \<open>ValueError\<close>
  (the messages are shortened here). Then, with \<open>rng\<close> freshly seeded with
  \<open>random_state\<close>, \<open>permutation = rng.permutation(n_samples)\<close>,
  \<open>ind_test = permutation[:n_test]\<close> and
  \<open>ind_train = permutation[n_test:(n_test + n_train)]\<close>.
\<close>

definition n_test_of :: "rat \<Rightarrow> nat \<Rightarrow> nat" where
  "n_test_of test_size n_samples =
     nat \<lceil>round_double (test_size * round_double (of_nat n_samples))\<rceil>"

definition shuffle_split ::
  "(nat \<Rightarrow> nat \<Rightarrow> nat \<Rightarrow> nat) \<Rightarrow> nat \<Rightarrow> rat \<Rightarrow> nat \<Rightarrow> py_exception + nat list \<times> nat list" where
  "shuffle_split random_interval n_samples test_size random_state =
     (if test_size \<le> 0 \<or> 1 \<le> test_size
      then Inl (ValueError ''test_size should be a float in the (0, 1) range'')
      else if max_double < round_double (of_nat n_samples) then Inl OverflowError
      else
        let n_test = n_test_of test_size n_samples
        in if n_samples \<le> n_test
           then Inl (ValueError ''the resulting train set will be empty'')
           else
             let n_train = n_samples - n_test;
                 p = permutation random_interval random_state n_samples
             in Inr (take n_train (drop n_test p), take n_test p))"

text \<open>
  \<open>train_test_split(xs, test_size=..., random_state=...)\<close>: the two parts are taken from
  \<open>xs\<close> by position, rows of a frame (with their labels) as well as rows of a matrix.
\<close>

definition train_test_split ::
  "(nat \<Rightarrow> nat \<Rightarrow> nat \<Rightarrow> nat) \<Rightarrow> 'a list \<Rightarrow> rat \<Rightarrow> nat \<Rightarrow> py_exception + 'a list \<times> 'a list" where
  "train_test_split random_interval xs test_size random_state =
     (case shuffle_split random_interval (length xs) test_size random_state of
        Inl e \<Rightarrow> Inl e
      | Inr (ind_train, ind_test) \<Rightarrow>
          Inr (map (\<lambda>p. xs ! p) ind_train, map (\<lambda>p. xs ! p) ind_test))"

subsection \<open>The cells of the notebook\<close>

text \<open>\<open>df.drop(name, axis=1)\<close>; a label that is not a column is a \<open>KeyError\<close>.\<close>

definition drop_column :: "string \<Rightarrow> dataframe \<Rightarrow> py_exception + dataframe" where
  "drop_column name df =
     (if name \<in> set (df_columns df)
      then Inr \<lparr>df_columns = filter (\<lambda>n. n \<noteq> name) (df_columns df),
                df_object = map snd (filter (\<lambda>(n, obj). n \<noteq> name)
                                       (zip (df_columns df) (df_object df))),
                df_rows = map (\<lambda>(i, r). (i, map snd (filter (\<lambda>(n, c). n \<noteq> name)
                                                       (zip (df_columns df) r))))
                              (df_rows df)\<rparr>
      else Inl (OtherError ''KeyError''))"

text \<open>\<open>df.income\<close>: the cells of the column of that name, row by row.\<close>

definition column_values :: "string \<Rightarrow> dataframe \<Rightarrow> cell list" where
  "column_values name df =
     map (\<lambda>(i, r). case filter (\<lambda>(n, c). n = name) (zip (df_columns df) r) of
                       [] \<Rightarrow> NaN | (n, c) # _ \<Rightarrow> c)
         (df_rows df)"

text \<open>
  A CSV file written by \<open>df.to_csv(path, index=False)\<close>: a header line with the column
  labels, then one record for each row, without the index labels.
\<close>

record csv_file =
  csv_header :: "string list"
  csv_records :: "cell list list"

definition to_csv :: "dataframe \<Rightarrow> csv_file" where
  "to_csv df = \<lparr>csv_header = df_columns df, csv_records = map snd (df_rows df)\<rparr>"

text \<open>
  \<open>np.insert(X, 0, y, axis=1)\<close>: \<open>y\<close> becomes the first column of \<open>X\<close>. A \<open>y\<close> of one
  element is broadcast to every row; any other length that is not the number of rows is a
  \<open>ValueError\<close>.
\<close>

definition insert_first_column :: "rat list \<Rightarrow> rat list list \<Rightarrow> py_exception + rat list list" where
  "insert_first_column y X =
     (if length y = length X then Inr (map (\<lambda>(v, row). v # row) (zip y X))
      else if length y = 1 then Inr (map (\<lambda>row. hd y # row) X)
      else Inl (ValueError ''could not broadcast input array''))"

text \<open>The number that \<open>np.savetxt(..., fmt='%f')\<close> writes: six decimals, to nearest.\<close>

definition percent_f :: "rat \<Rightarrow> rat" where
  "percent_f x = of_int (round_half_even (x * 1000000)) / 1000000"

text \<open>
  \<open>numeric_ind = [i for i, x in enumerate(df.dtypes) if x != object]\<close> and
  \<open>cat_ind = [i for i, x in enumerate(df.dtypes) if x == object]\<close>
\<close>

definition numeric_ind :: "dataframe \<Rightarrow> nat list" where
  "numeric_ind df = map fst (filter (\<lambda>(i, x). \<not> x) (enumerate 0 (df_object df)))"

definition cat_ind :: "dataframe \<Rightarrow> nat list" where
  "cat_ind df = map fst (filter (\<lambda>(i, x). x) (enumerate 0 (df_object df)))"

text \<open>
  What the notebook writes, in order: a frame by \<open>to_csv\<close>, the transformer by
  \<open>pickle.dump\<close>, a matrix by \<open>np.savetxt\<close> (its numbers as \<open>%f\<close> prints them), a local
  file uploaded to a key of the bucket. The file system and the bucket are taken to
  accept every write.
\<close>

datatype 'p written =
    To_csv string csv_file
  | Pickle_dump string 'p
  | Savetxt string "rat list list"
  | Upload_file string string

text \<open>The variables that the notebook has set when it has run through.\<close>

record ('p, 'm) artifacts =
  train_val_frame :: dataframe
  test_frame :: dataframe
  preprocessor :: 'p
  labelled_matrix :: "rat list list"
  train_matrix :: "rat list list"
  val_matrix :: "rat list list"
  xgb_model :: 'm

text \<open>
  The computations of the pre-processing cell up to its two \<open>to_csv\<close> calls:
  \<open>df_train_val\<close>, \<open>df_test\<close> and \<open>df_train_val_no_target\<close>. Selecting rows keeps the
  columns and their dtypes. The float literal \<open>0.1\<close> is the double nearest to 1/10.
\<close>

definition split_test ::
  "(nat \<Rightarrow> nat \<Rightarrow> nat \<Rightarrow> nat) \<Rightarrow> cell list list \<Rightarrow>
   py_exception + dataframe \<times> dataframe \<times> dataframe" where
  "split_test random_interval parsed =
     (case load_adult parsed of
        Inl e \<Rightarrow> Inl e
      | Inr df \<Rightarrow>
          (case train_test_split random_interval (df_rows df) (round_double (1 / 10)) 42 of
             Inl e \<Rightarrow> Inl e
           | Inr (train_val_rows, test_rows) \<Rightarrow>
               let df_train_val = df\<lparr>df_rows := train_val_rows\<rparr>;
                   df_test = df\<lparr>df_rows := test_rows\<rparr>
               in case drop_column ''income'' df_train_val of
                    Inl e \<Rightarrow> Inl e
                  | Inr df_train_val_no_target \<Rightarrow>
                      Inr (df_train_val, df_test, df_train_val_no_target)))"

text \<open>
  The cell that builds the transformer, up to \<open>np.insert\<close>, for a frame and the same frame
  without its target: the \<open>ColumnTransformer\<close> made from \<open>numeric_ind\<close> and \<open>cat_ind\<close> is
  fitted on the frame without the target and transforms it, and the encoded target is put
  in front. The result is \<open>preprocessor\<close> and \<open>X\<close>. The library is a parameter:
  \<open>fit\<close> gives the fitted transformer or the exception raised; \<open>transform_row\<close> is what
  the fitted transformer makes of one row (the imputers and the one-hot encoder work row
  by row once they are fitted); \<open>label_encode\<close> is \<open>LabelEncoder().fit_transform\<close>.
\<close>

definition preprocess_cell ::
  "(nat list \<Rightarrow> nat list \<Rightarrow> dataframe \<Rightarrow> py_exception + 'p) \<Rightarrow> ('p \<Rightarrow> cell list \<Rightarrow> rat list) \<Rightarrow>
   (cell list \<Rightarrow> rat list) \<Rightarrow> dataframe \<Rightarrow> dataframe \<Rightarrow> py_exception + 'p \<times> rat list list" where
  "preprocess_cell fit transform_row label_encode df df_no_target =
     (case fit (numeric_ind df_no_target) (cat_ind df_no_target) df_no_target of
        Inl e \<Rightarrow> Inl e
      | Inr fitted \<Rightarrow>
          (case insert_first_column (label_encode (column_values ''income'' df))
                  (map (\<lambda>(i, r). transform_row fitted r) (df_rows df_no_target)) of
             Inl e \<Rightarrow> Inl e
           | Inr X \<Rightarrow> Inr (fitted, X)))"

text \<open>
  The cells of the notebook from the pre-processing to the training, in the order in
  which they stand: what they have written when the run ends, and the exception that
  ended it or the variables set. \<open>xgb_fit\<close> is the training job on the two uploaded
  files. The float literal \<open>0.2\<close> is the double nearest to 1/5.
\<close>

definition prepare_data ::
  "(nat \<Rightarrow> nat \<Rightarrow> nat \<Rightarrow> nat) \<Rightarrow>
   (nat list \<Rightarrow> nat list \<Rightarrow> dataframe \<Rightarrow> py_exception + 'p) \<Rightarrow> ('p \<Rightarrow> cell list \<Rightarrow> rat list) \<Rightarrow>
   (cell list \<Rightarrow> rat list) \<Rightarrow> (rat list list \<Rightarrow> rat list list \<Rightarrow> 'm) \<Rightarrow>
   cell list list \<Rightarrow> 'p written list \<times> (py_exception + ('p, 'm) artifacts)" where
  "prepare_data random_interval fit transform_row label_encode xgb_fit parsed =
     (case split_test random_interval parsed of
        Inl e \<Rightarrow> ([], Inl e)
      | Inr (df_train_val, df_test, df_train_val_no_target) \<Rightarrow>
          let splits = [To_csv ''data/train.csv'' (to_csv df_train_val),
                        To_csv ''data/test.csv'' (to_csv df_test)]
          in case preprocess_cell fit transform_row label_encode df_train_val
                    df_train_val_no_target of
               Inl e \<Rightarrow> (splits, Inl e)
             | Inr (fitted, X) \<Rightarrow>
                 let pickled = splits @ [Pickle_dump ''script/preprocess.pkl'' fitted]
                 in case train_test_split random_interval X (round_double (1 / 5)) 42 of
                      Inl e \<Rightarrow> (pickled, Inl e)
                    | Inr (X_train, X_val) \<Rightarrow>
                        (pickled @
                         [Savetxt ''data/train_transform.csv'' (map (map percent_f) X_train),
                          Savetxt ''data/val_transform.csv'' (map (map percent_f) X_val),
                          Upload_file ''data/train_transform.csv''
                            ''sagemaker/DEMO-ModelMonitor/train/train.csv'',
                          Upload_file ''data/val_transform.csv''
                            ''sagemaker/DEMO-ModelMonitor/validation/validation.csv''],
                         Inr \<lparr>train_val_frame = df_train_val,
                              test_frame = df_test,
                              preprocessor = fitted,
                              labelled_matrix = X,
                              train_matrix = X_train,
                              val_matrix = X_val,
                              xgb_model = xgb_fit (map (map percent_f) X_train)
                                            (map (map percent_f) X_val)\<rparr>))"

text \<open>
  The order of the specification, for comparison: load the CSV, then impute and one-hot
  encode (the loaded data), then split into train, validation and test, then fit the
  model. The result is the fitted transformer, the three partitions and the model.
\<close>

definition prepare_data_in_spec_order ::
  "(nat \<Rightarrow> nat \<Rightarrow> nat \<Rightarrow> nat) \<Rightarrow>
   (nat list \<Rightarrow> nat list \<Rightarrow> dataframe \<Rightarrow> py_exception + 'p) \<Rightarrow> ('p \<Rightarrow> cell list \<Rightarrow> rat list) \<Rightarrow>
   (cell list \<Rightarrow> rat list) \<Rightarrow> (rat list list \<Rightarrow> rat list list \<Rightarrow> 'm) \<Rightarrow>
   cell list list \<Rightarrow>
   py_exception + 'p \<times> rat list list \<times> rat list list \<times> rat list list \<times> 'm" where
  "prepare_data_in_spec_order random_interval fit transform_row label_encode xgb_fit parsed =
     (case load_adult parsed of
        Inl e \<Rightarrow> Inl e
      | Inr df \<Rightarrow>
          (case drop_column ''income'' df of
             Inl e \<Rightarrow> Inl e
           | Inr df_no_target \<Rightarrow>
               (case preprocess_cell fit transform_row label_encode df df_no_target of
                  Inl e \<Rightarrow> Inl e
                | Inr (fitted, X) \<Rightarrow>
                    (case train_test_split random_interval X (round_double (1 / 10)) 42 of
                       Inl e \<Rightarrow> Inl e
                     | Inr (X_train_val, X_test) \<Rightarrow>
                         (case train_test_split random_interval X_train_val
                                 (round_double (1 / 5)) 42 of
                            Inl e \<Rightarrow> Inl e
                          | Inr (X_train, X_val) \<Rightarrow>
                              Inr (fitted, X_test, X_train, X_val,
                                   xgb_fit (map (map percent_f) X_train)
                                     (map (map percent_f) X_val)))))))"

subsection \<open>Example libraries and data\<close>

text \<open>
  The numbers that numpy's generator (MT19937) yields when it is seeded with 42 and
  shuffles two elements (0 at position 1) or three elements (2 at position 2, 1 at
  position 1); for the seeds and lengths that the examples do not use, \<open>i\<close> at position
  \<open>i\<close>.
\<close>

definition mt19937 :: "nat \<Rightarrow> nat \<Rightarrow> nat \<Rightarrow> nat" where
  "mt19937 seed n i = (if seed = 42 \<and> n = 2 then 0 else i)"

text \<open>
  A transformer whose fitted state is the number of rows it was fitted on, which it puts
  in place of every missing value, leaving numbers as they are and writing the length of
  a string for the string; a transformer that cannot be fitted; a label encoder that
  tells \<open>>50K\<close> from the rest; a training job that returns the sizes of its inputs.
\<close>

definition fit_count :: "nat list \<Rightarrow> nat list \<Rightarrow> dataframe \<Rightarrow> py_exception + nat" where
  "fit_count num_ind cat_ind0 df = Inr (length (df_rows df))"

fun fill_cell :: "rat \<Rightarrow> cell \<Rightarrow> rat" where
  "fill_cell v NaN = v"
| "fill_cell v (Num x) = x"
| "fill_cell v (Str s) = of_nat (length s)"

definition fill_with_count :: "nat \<Rightarrow> cell list \<Rightarrow> rat list" where
  "fill_with_count fitted r = map (fill_cell (of_nat fitted)) r"

definition fit_refused :: "nat list \<Rightarrow> nat list \<Rightarrow> dataframe \<Rightarrow> py_exception + nat" where
  "fit_refused num_ind cat_ind0 df =
     Inl (ValueError ''Cannot use mean strategy with non-numeric data'')"

definition over_50k :: "cell list \<Rightarrow> rat list" where
  "over_50k ys = map (\<lambda>c. if c = Str ''>50K'' then 1 else 0) ys"

definition input_sizes :: "rat list list \<Rightarrow> rat list list \<Rightarrow> nat \<times> nat" where
  "input_sizes train val = (length train, length val)"

text \<open>Three records of the census file, the first with its age missing.\<close>

definition adult_sample :: "cell list list" where
  "adult_sample =
     [[NaN, Str '' Private'', Num 77516, Str '' Bachelors'', Num 13, Str '' Never-married'',
       Str '' Adm-clerical'', Str '' Not-in-family'', Str '' White'', Str '' Male'', Num 2174,
       Num 0, Num 40, Str '' United-States'', Str '' <=50K''],
      [Num 50, Str '' Self-emp-not-inc'', Num 83311, Str '' Bachelors'', Num 13,
       Str '' Married-civ-spouse'', Str '' Exec-managerial'', Str '' Husband'', Str '' White'',
       Str '' Male'', Num 0, Num 0, Num 13, Str '' United-States'', Str '' >50K''],
      [Num 38, Str '' Private'', Num 215646, Str '' HS-grad'', Num 9, Str '' Divorced'',
       Str '' Handlers-cleaners'', Str '' Not-in-family'', Str '' White'', Str '' Male'', Num 0,
       Num 0, Num 40, Str '' United-States'', Str '' <=50K'']]"

text \<open>The dtypes of the frame read from them: which columns are of dtype \<open>object\<close>.\<close>

definition adult_sample_object :: "bool list" where
  "adult_sample_object =
     [False, True, False, True, False, True, True, True, True, True, False, False, False, True,
      True]"

text \<open>The three rows of the frame loaded from them.\<close>

definition adult_row_0 :: "cell list" where
  "adult_row_0 =
     [NaN, Str ''Private'', Num 77516, Str ''Bachelors'', Num 13, Str ''Never-married'',
      Str ''Adm-clerical'', Str ''Not-in-family'', Str ''White'', Str ''Male'', Num 2174,
      Num 0, Num 40, Str ''United-States'', Str ''<=50K'']"

definition adult_row_1 :: "cell list" where
  "adult_row_1 =
     [Num 50, Str ''Self-emp-not-inc'', Num 83311, Str ''Bachelors'', Num 13,
      Str ''Married-civ-spouse'', Str ''Exec-managerial'', Str ''Husband'', Str ''White'',
      Str ''Male'', Num 0, Num 0, Num 13, Str ''United-States'', Str ''>50K'']"

definition adult_row_2 :: "cell list" where
  "adult_row_2 =
     [Num 38, Str ''Private'', Num 215646, Str ''HS-grad'', Num 9, Str ''Divorced'',
      Str ''Handlers-cleaners'', Str ''Not-in-family'', Str ''White'', Str ''Male'', Num 0,
      Num 0, Num 40, Str ''United-States'', Str ''<=50K'']"

text \<open>The frame loaded from them, restricted to some of its rows.\<close>

definition adult_frame :: "(nat \<times> cell list) list \<Rightarrow> dataframe" where
  "adult_frame rows =
     \<lparr>df_columns = column_names, df_object = adult_sample_object, df_rows = rows\<rparr>"

text \<open>
  The rows of the matrix that the example transformer makes of them, the encoded target in
  front: of rows 1 and 2, which miss no value, and of row 0 when the transformer is fitted
  on three rows.
\<close>

definition adult_features_1 :: "rat list" where
  "adult_features_1 = [1, 50, 16, 83311, 9, 13, 18, 15, 7, 5, 4, 0, 0, 13, 13]"

definition adult_features_2 :: "rat list" where
  "adult_features_2 = [0, 38, 7, 215646, 7, 9, 8, 17, 13, 5, 4, 0, 0, 40, 13]"

definition adult_features_0 :: "rat list" where
  "adult_features_0 = [0, 3, 7, 77516, 9, 13, 13, 12, 13, 5, 4, 2174, 0, 40, 13]"

section \<open>Properties of the float model\<close>

lemma bit_length_bounds:
  "0 < n \<Longrightarrow> 2 ^ (bit_length n - 1) \<le> n \<and> n < 2 ^ bit_length n"
proof (induction n rule: bit_length.induct)
  case (1 n)
  show ?case
  proof (cases "n div 2 = 0")
    case True
    with "1.prems" have "n = 1" by presburger
    moreover have "bit_length (Suc 0) = Suc 0"
      by (simp add: bit_length.simps [of "Suc 0"] bit_length.simps [of 0])
    ultimately show ?thesis by simp
  next
    case False
    then have pos: "0 < n div 2" by simp
    from "1.IH" [OF _ pos] "1.prems"
    have ih: "2 ^ (bit_length (n div 2) - 1) \<le> n div 2" "n div 2 < 2 ^ bit_length (n div 2)"
      by simp_all
    have bl: "bit_length n = Suc (bit_length (n div 2))"
      using "1.prems" by (subst bit_length.simps) simp
    have "0 < bit_length (n div 2)"
      using pos by (subst bit_length.simps) simp
    then obtain k where k: "bit_length (n div 2) = Suc k" by (cases "bit_length (n div 2)") auto
    from ih k have "2 * 2 ^ k \<le> n" "n < 2 * 2 ^ Suc k" by auto
    then show ?thesis by (simp add: bl k)
  qed
qed

lemma pow2_pos [simp]: "0 < pow2 e"
  by (simp add: pow2_def)

lemma pow2_nonzero [simp]: "pow2 e \<noteq> 0"
  by (metis pow2_pos less_irrefl)

lemma pow2_nonneg [simp]: "0 \<le> pow2 e"
  by (rule less_imp_le [OF pow2_pos])

lemma pow2_add: "pow2 (x + y) = pow2 x * pow2 y"
proof -
  have "pow2 e = 2 powi e" for e
    by (simp add: pow2_def power_int_def field_simps)
  then show ?thesis by (simp add: power_int_add)
qed

lemma pow2_mono: "x \<le> y \<Longrightarrow> pow2 x \<le> pow2 y"
proof -
  assume "x \<le> y"
  have e: "pow2 e = 2 powi e" for e
    by (simp add: pow2_def power_int_def field_simps)
  show ?thesis unfolding e using \<open>x \<le> y\<close> by (intro power_int_increasing) auto
qed

lemma pow2_less_cancel: "pow2 x < pow2 y \<Longrightarrow> x < y"
  using pow2_mono [of y x] by (cases "x < y") auto

lemma pow2_diff_nat: "pow2 (int x - int y) = 2 ^ x / 2 ^ y"
proof -
  have "pow2 (int x + (- int y)) = pow2 (int x) * pow2 (- int y)" by (rule pow2_add)
  moreover have "pow2 (int x) = 2 ^ x" by (simp add: pow2_def)
  moreover have "pow2 (- int y) = 1 / 2 ^ y"
  proof (cases y)
    case 0
    then show ?thesis by (simp add: pow2_def)
  next
    case (Suc n)
    then have "nat (int y) = y" "\<not> 0 \<le> - int y" by simp_all
    then show ?thesis unfolding pow2_def by simp
  qed
  ultimately show ?thesis by simp
qed

lemma ilog2_bounds:
  assumes "0 < a"
  shows "pow2 (ilog2 a) \<le> a \<and> a < pow2 (ilog2 a + 1)"
proof -
  obtain n d where q: "quotient_of a = (n, d)" by (cases "quotient_of a")
  then have d: "0 < d" and a: "a = of_int n / of_int d"
    by (simp_all add: quotient_of_denom_pos quotient_of_div)
  from assms a d have n: "0 < n" by (simp add: zero_less_divide_iff)
  define N D where "N = nat n" and "D = nat d"
  then have ND: "0 < N" "0 < D" "n = int N" "d = int D" using n d by simp_all
  define bN bD where "bN = bit_length N" and "bD = bit_length D"
  have N: "2 ^ (bN - 1) \<le> N" "N < 2 ^ bN" and D: "2 ^ (bD - 1) \<le> D" "D < 2 ^ bD"
    using bit_length_bounds [OF ND(1)] bit_length_bounds [OF ND(2)] by (simp_all add: bN_def bD_def)
  have bpos: "0 < bN" "0 < bD"
    using ND by (simp_all add: bN_def bD_def bit_length.simps [of N] bit_length.simps [of D])
  have aq: "a = of_nat N / of_nat D" using a ND by simp
  define k where "k = int bN - int bD"
  have lower: "pow2 (k - 1) \<le> a"
  proof -
    have "k - 1 = int (bN - 1) - int bD" using bpos by (simp add: k_def)
    then have "pow2 (k - 1) = 2 ^ (bN - 1) / 2 ^ bD" by (simp add: pow2_diff_nat)
    also have "\<dots> \<le> of_nat N / of_nat D"
    proof (rule frac_le)
      show "(2::rat) ^ (bN - 1) \<le> of_nat N" using N(1) by (metis of_nat_le_iff of_nat_numeral of_nat_power)
      show "(of_nat D :: rat) \<le> 2 ^ bD" using D(2) by (metis less_imp_le of_nat_le_iff of_nat_numeral of_nat_power)
    qed (use ND in simp_all)
    finally show ?thesis by (simp add: aq)
  qed
  have upper: "a < pow2 (k + 1)"
  proof -
    have "k + 1 = int bN - int (bD - 1)" using bpos by (simp add: k_def)
    then have e: "pow2 (k + 1) = 2 ^ bN / 2 ^ (bD - 1)" by (simp add: pow2_diff_nat)
    have "of_nat N / of_nat D < (2::rat) ^ bN / 2 ^ (bD - 1)"
    proof (rule frac_less)
      show "(of_nat N :: rat) < 2 ^ bN" using N(2) by (metis of_nat_less_iff of_nat_numeral of_nat_power)
      show "(2::rat) ^ (bD - 1) \<le> of_nat D" using D(1) by (metis of_nat_le_iff of_nat_numeral of_nat_power)
    qed simp_all
    then show ?thesis by (simp add: aq e)
  qed
  have il: "ilog2 a = (if pow2 k \<le> a then k else k - 1)"
    by (simp add: ilog2_def q k_def bN_def bD_def N_def D_def)
  show ?thesis
  proof (cases "pow2 k \<le> a")
    case True
    with il upper show ?thesis by simp
  next
    case False
    with il lower show ?thesis by simp
  qed
qed

lemma ilog2_unique:
  assumes "0 < a" "pow2 k \<le> a" "a < pow2 (k + 1)"
  shows "ilog2 a = k"
proof -
  from ilog2_bounds [OF assms(1)]
  have b: "pow2 (ilog2 a) \<le> a" "a < pow2 (ilog2 a + 1)" by simp_all
  from b(1) assms(3) have "ilog2 a < k + 1" by (intro pow2_less_cancel) simp
  moreover from assms(2) b(2) have "k < ilog2 a + 1" by (intro pow2_less_cancel) simp
  ultimately show ?thesis by simp
qed

lemma ilog2_less:
  assumes "0 < a" "a < pow2 k"
  shows "ilog2 a < k"
  using ilog2_bounds [OF assms(1)] assms(2) by (intro pow2_less_cancel) simp

lemma round_half_even_error: "\<bar>of_int (round_half_even q) - q\<bar> \<le> 1 / 2"
proof -
  have "of_int \<lfloor>q\<rfloor> \<le> q" "q < of_int \<lfloor>q\<rfloor> + 1" by linarith+
  then show ?thesis by (auto simp: round_half_even_def Let_def)
qed

lemma round_half_even_nonneg: "0 \<le> q \<Longrightarrow> 0 \<le> round_half_even q"
  by (auto simp: round_half_even_def Let_def)

lemma round_half_even_of_int [simp]: "round_half_even (of_int n) = n"
  by (simp add: round_half_even_def)

lemma round_half_even_eqI:
  assumes "\<bar>q - of_int m\<bar> < 1 / 2"
  shows "round_half_even q = m"
proof -
  have "\<bar>(of_int (round_half_even q) :: rat) - of_int m\<bar> < 1"
    using round_half_even_error [of q] assms by linarith
  then have "\<bar>(of_int (round_half_even q - m) :: rat)\<bar> < of_int 1" by simp
  then have "\<bar>round_half_even q - m\<bar> < 1" by (simp only: of_int_less_iff flip: of_int_abs)
  then show ?thesis by simp
qed

lemma round_double_error:
  assumes "0 < a"
  defines "e \<equiv> max (- 1074) (ilog2 a - 52)"
  shows "\<bar>round_double a - a\<bar> \<le> pow2 e / 2" and "0 \<le> round_double a"
proof -
  define m where "m = round_half_even (a / pow2 e)"
  have rd: "round_double a = of_int m * pow2 e"
    using assms(1) by (simp add: round_double_def Let_def m_def e_def)
  have "\<bar>of_int m - a / pow2 e\<bar> \<le> 1 / 2" unfolding m_def by (rule round_half_even_error)
  then have "\<bar>of_int m - a / pow2 e\<bar> * pow2 e \<le> 1 / 2 * pow2 e"
    by (intro mult_right_mono less_imp_le [OF pow2_pos])
  moreover have "\<bar>of_int m - a / pow2 e\<bar> * pow2 e = \<bar>of_int m * pow2 e - a\<bar>"
  proof -
    have "\<bar>of_int m - a / pow2 e\<bar> * pow2 e = \<bar>(of_int m - a / pow2 e) * pow2 e\<bar>"
      using pow2_pos [of e] by (simp add: abs_mult abs_of_pos)
    also have "(of_int m - a / pow2 e) * pow2 e = of_int m * pow2 e - a"
      by (simp add: left_diff_distrib)
    finally show ?thesis .
  qed
  ultimately show "\<bar>round_double a - a\<bar> \<le> pow2 e / 2" by (simp add: rd)
  have "0 \<le> m" unfolding m_def using assms(1) by (intro round_half_even_nonneg divide_nonneg_pos) simp_all
  then show "0 \<le> round_double a" by (simp add: rd mult_nonneg_nonneg)
qed

lemma round_double_upper:
  assumes "0 < a" "a < pow2 k" "- 1021 \<le> k"
  shows "round_double a \<le> a + pow2 (k - 54)" and "a - pow2 (k - 54) \<le> round_double a"
proof -
  define e where "e = max (- 1074) (ilog2 a - 52)"
  have "ilog2 a < k" using assms(1,2) by (rule ilog2_less)
  then have "e \<le> k - 53" using assms(3) by (simp add: e_def)
  then have "pow2 e \<le> pow2 (k - 53)" by (rule pow2_mono)
  moreover have "pow2 (k - 53) = pow2 (k - 54) * 2"
    using pow2_add [of "k - 54" 1] by (simp add: pow2_def)
  moreover have "\<bar>round_double a - a\<bar> \<le> pow2 e / 2"
    using round_double_error(1) [OF assms(1)] by (simp add: e_def)
  ultimately have "\<bar>round_double a - a\<bar> \<le> pow2 (k - 54)" by simp
  then show "round_double a \<le> a + pow2 (k - 54)" and "a - pow2 (k - 54) \<le> round_double a"
    by linarith+
qed

lemma round_double_relative:
  assumes "pow2 (- 1022) \<le> a"
  shows "a * (1 - pow2 (- 53)) \<le> round_double a"
proof -
  have apos: "0 < a" using assms pow2_pos [of "- 1022"] by linarith
  define k where "k = ilog2 a"
  have b: "pow2 k \<le> a" "a < pow2 (k + 1)" using ilog2_bounds [OF apos] by (simp_all add: k_def)
  from assms b(2) have "pow2 (- 1022) < pow2 (k + 1)" by simp
  then have "- 1022 < k + 1" by (rule pow2_less_cancel)
  then have e: "max (- 1074) (ilog2 a - 52) = k - 52" by (simp add: k_def)
  have "\<bar>round_double a - a\<bar> \<le> pow2 (k - 52) / 2"
    using round_double_error(1) [OF apos] by (simp only: e)
  moreover have "pow2 (k - 52) / 2 = pow2 k * pow2 (- 53)"
  proof -
    have "pow2 (k - 52) = pow2 k * pow2 (- 53) * pow2 1"
      using pow2_add [of "k + (- 53)" 1] pow2_add [of k "- 53"] by simp
    moreover have "pow2 1 = 2" by (simp add: pow2_def)
    ultimately show ?thesis by simp
  qed
  moreover have "pow2 k * pow2 (- 53) \<le> a * pow2 (- 53)"
    by (rule mult_right_mono [OF b(1) pow2_nonneg])
  ultimately have "\<bar>round_double a - a\<bar> \<le> a * pow2 (- 53)" by linarith
  then show ?thesis by (simp add: algebra_simps)
qed

lemma round_double_eval:
  assumes "0 < a" "pow2 k \<le> a" "a < pow2 (k + 1)" "- 1022 \<le> k"
  shows "round_double a = of_int (round_half_even (a / pow2 (k - 52))) * pow2 (k - 52)"
proof -
  have "ilog2 a = k" using assms(1-3) by (rule ilog2_unique)
  moreover have "max (- 1074) (k - 52) = k - 52" using assms(4) by simp
  ultimately show ?thesis using assms(1) by (simp add: round_double_def Let_def)
qed

lemma round_double_of_int:
  assumes "\<bar>n\<bar> < 2 ^ 53"
  shows "round_double (of_int n) = of_int n"
proof (cases "n = 0")
  case True
  then show ?thesis by (simp add: round_double_def)
next
  case False
  define a :: rat where "a = \<bar>of_int n\<bar>"
  have a1: "1 \<le> a" using False by (simp add: a_def flip: of_int_abs)
  then have apos: "0 < a" by simp
  have a53: "a < pow2 53"
  proof -
    have "(of_int \<bar>n\<bar> :: rat) < of_int (2 ^ 53)" using assms by (simp only: of_int_less_iff)
    then show ?thesis by (simp add: a_def pow2_def)
  qed
  define k where "k = ilog2 a"
  have "k < 53" unfolding k_def using apos a53 by (rule ilog2_less)
  moreover have "0 \<le> k"
  proof -
    have "pow2 0 \<le> a" using a1 by (simp add: pow2_def)
    moreover have "a < pow2 (k + 1)" using ilog2_bounds [OF apos] by (simp add: k_def)
    ultimately have "pow2 0 < pow2 (k + 1)" by simp
    then have "0 < k + 1" by (rule pow2_less_cancel)
    then show ?thesis by simp
  qed
  ultimately have e: "max (- 1074) (k - 52) = k - 52" "k - 52 \<le> 0" by simp_all
  define j where "j = nat (52 - k)"
  have pj: "pow2 (k - 52) = 1 / 2 ^ j"
    using e(2) by (auto simp: pow2_def j_def)
  have "a / pow2 (k - 52) = of_int (\<bar>n\<bar> * 2 ^ j)" by (simp add: pj a_def)
  then have m: "round_half_even (a / pow2 (k - 52)) = \<bar>n\<bar> * 2 ^ j"
    by (simp only: round_half_even_of_int)
  have "round_double (of_int n) = sgn (of_int n) * of_int (\<bar>n\<bar> * 2 ^ j) * pow2 (k - 52)"
    using False e(1) m by (simp add: round_double_def Let_def a_def k_def)
  also have "\<dots> = sgn (of_int n) * \<bar>of_int n\<bar>" by (simp add: pj)
  also have "\<dots> = of_int n" by (simp add: sgn_mult_abs)
  finally show ?thesis .
qed

lemma py_truediv_exact:
  assumes "b \<noteq> 0" "a = q * b" "\<bar>q\<bar> < 2 ^ 53"
  shows "py_truediv a b = Inr (of_int q)"
proof -
  have "(of_int a :: rat) / of_int b = of_int q" using assms(1,2) by simp
  moreover have "\<bar>of_int q :: rat\<bar> \<le> max_double"
  proof -
    have "(of_int \<bar>q\<bar> :: rat) < of_int (2 ^ 53)" using assms(3) by (simp only: of_int_less_iff)
    then show ?thesis by (simp add: max_double_def)
  qed
  ultimately show ?thesis
    using assms(1,3) by (simp add: py_truediv_def round_double_of_int)
qed

lemma sleep_interval_defined:
  assumes "1 \<le> c"
  shows "\<exists>st. py_truediv ten_hours_in_sec c = Inr st"
proof -
  define a :: rat where "a = 36000 / of_int c"
  have "0 < a" using assms by (simp add: a_def)
  moreover have "a \<le> 36000"
  proof -
    have "(1::rat) \<le> of_int c" using assms by simp
    then have "36000 / of_int c \<le> (36000::rat) / 1" by (intro divide_left_mono) simp_all
    then show ?thesis by (simp add: a_def)
  qed
  moreover from this have "a < pow2 16" by (simp add: pow2_def)
  ultimately have "0 \<le> round_double a" "round_double a \<le> 36000 + pow2 (- 38)"
    using round_double_upper(1) [of a 16] round_double_error(2) [of a] by simp_all
  then have "\<not> max_double < \<bar>round_double a\<bar>" by (simp add: max_double_def pow2_def)
  then show ?thesis using assms
    by (simp add: py_truediv_def ten_hours_in_sec_def a_def)
qed

lemma progress_every_small:
  assumes "1 \<le> c" "c \<le> 39"
  shows "progress_every c = Inr 0"
proof -
  define a :: rat where "a = of_int c / 36000"
  have a: "0 < a" "a \<le> 39 / 36000" using assms by (simp_all add: a_def)
  have "a < pow2 (- 9)" using a(2) by (simp add: pow2_def)
  from round_double_upper(1) [OF a(1) this] round_double_error(2) [OF a(1)]
  have r1: "0 \<le> round_double a" "round_double a \<le> a + pow2 (- 63)" by simp_all
  define r where "r = round_double a"
  have rb: "0 \<le> r" "r \<le> 39 / 36000 + pow2 (- 63)" using r1 a(2) by (simp_all add: r_def)
  have rmax: "\<not> max_double < \<bar>r\<bar>"
    using rb by (simp add: max_double_def pow2_def)
  have div: "py_truediv c ten_hours_in_sec = Inr r"
    using rmax by (simp add: py_truediv_def ten_hours_in_sec_def r_def a_def)
  define b where "b = r * 900"
  have b: "0 \<le> b" "b < 99 / 100" using rb by (simp_all add: b_def pow2_def)
  have p: "0 \<le> round_double b \<and> round_double b < 1"
  proof (cases "b = 0")
    case True
    then show ?thesis by (simp add: round_double_def)
  next
    case False
    with b have bpos: "0 < b" by simp
    have "b < pow2 0" using b(2) by (simp add: pow2_def)
    from round_double_upper(1) [OF bpos this] round_double_error(2) [OF bpos] b(2)
    show ?thesis by (simp add: pow2_def)
  qed
  then have "\<not> max_double < \<bar>round_double b\<bar>" by (simp add: max_double_def)
  moreover have "py_int (round_double b) = 0"
  proof -
    have "\<lfloor>round_double b\<rfloor> = 0" using p by (intro floor_unique) simp_all
    with p show ?thesis by (simp add: py_int_def)
  qed
  ultimately show ?thesis by (simp add: progress_every_def div b_def)
qed

lemma round_double_900th: "round_double (1 / 900) = 5124095576030431 / 4611686018427387904"
proof -
  have "round_double (1 / 900) = of_int (round_half_even ((1 / 900) / pow2 (- 10 - 52))) * pow2 (- 10 - 52)"
    by (rule round_double_eval) (simp_all add: pow2_def)
  moreover have "round_half_even ((1 / 900) / pow2 (- 10 - 52)) = 5124095576030431"
    by (rule round_half_even_eqI) (simp add: pow2_def)
  ultimately show ?thesis by (simp add: pow2_def)
qed

lemma round_double_below_one: "round_double (5124095576030431 / 4611686018427387904 * 900) = 1"
proof -
  let ?b = "5124095576030431 / 4611686018427387904 * 900 :: rat"
  have "round_double ?b = of_int (round_half_even (?b / pow2 (- 1 - 52))) * pow2 (- 1 - 52)"
    by (rule round_double_eval) (simp_all add: pow2_def)
  moreover have "round_half_even (?b / pow2 (- 1 - 52)) = 9007199254740992"
    by (rule round_half_even_eqI) (simp add: pow2_def)
  ultimately show ?thesis by (simp add: pow2_def)
qed

lemma progress_every_40: "progress_every 40 = Inr 1"
proof -
  have "py_truediv 40 ten_hours_in_sec = Inr (5124095576030431 / 4611686018427387904)"
    using round_double_900th by (simp add: py_truediv_def ten_hours_in_sec_def max_double_def)
  then show ?thesis
    using round_double_below_one by (simp add: progress_every_def max_double_def py_int_def)
qed

lemma progress_every_large:
  assumes "40 \<le> c" "progress_every c = Inr m"
  shows "1 \<le> m"
proof (cases "c = 40")
  case True
  with assms(2) show ?thesis by (simp add: progress_every_40)
next
  case False
  with assms(1) have c: "41 \<le> c" by simp
  define a :: rat where "a = of_int c / 36000"
  have a: "41 / 36000 \<le> a" using c by (simp add: a_def)
  define r where "r = round_double a"
  have small: "pow2 (- 1022) \<le> 1 / 36000" by (simp add: pow2_def)
  have eps: "pow2 (- 53) \<le> 1 / 1000" by (simp add: pow2_def)
  have "a * (1 - pow2 (- 53)) \<le> r" unfolding r_def using a small
    by (intro round_double_relative) linarith
  moreover have "a * (999 / 1000) \<le> a * (1 - pow2 (- 53))"
    using a eps by (intro mult_left_mono) simp_all
  moreover have "41 / 36000 * (999 / 1000) \<le> a * (999 / 1000)" using a by simp
  ultimately have r: "41 / 36000 * (999 / 1000) \<le> r" by linarith
  from assms(2) have div: "py_truediv c ten_hours_in_sec = Inr r"
    by (auto simp: progress_every_def py_truediv_def ten_hours_in_sec_def r_def a_def Let_def
        split: sum.splits if_splits)
  define b where "b = r * 900"
  have b: "102 / 100 \<le> b" using r by (simp add: b_def)
  define p where "p = round_double b"
  have "b * (1 - pow2 (- 53)) \<le> p" unfolding p_def using b small
    by (intro round_double_relative) linarith
  moreover have "b * (999 / 1000) \<le> b * (1 - pow2 (- 53))"
    using b eps by (intro mult_left_mono) simp_all
  moreover have "102 / 100 * (999 / 1000) \<le> b * (999 / 1000)" using b by simp
  ultimately have p: "1 \<le> p" by linarith
  from assms(2) div have "m = py_int p"
    by (auto simp: progress_every_def Let_def b_def p_def split: if_splits)
  moreover have "1 \<le> \<lfloor>p\<rfloor>" using p by (simp add: le_floor_iff)
  ultimately show ?thesis using p by (simp add: py_int_def)
qed

lemma progress_every_error:
  assumes "progress_every c = Inl e"
  shows "e = OverflowError"
  using assms
  by (auto simp: progress_every_def py_truediv_def ten_hours_in_sec_def Let_def
      split: sum.splits if_splits)

section \<open>Properties of text files\<close>

lemma split_newline_not_Nil [simp]: "split_newline t \<noteq> []"
  by (induction t) (auto split: list.splits)

lemma length_split_newline:
  "length (split_newline t) = Suc (length (filter (\<lambda>c. c = newline) t))"
  by (induction t) (auto split: list.splits)

lemma file_lines_Nil_iff [simp]: "file_lines t = [] \<longleftrightarrow> t = []"
  by (cases t) (auto split: list.splits)

lemma length_file_lines:
  "length (file_lines t) =
     length (filter (\<lambda>c. c = newline) t) + (if t = [] \<or> last t = newline then 0 else 1)"
proof (induction t)
  case Nil
  then show ?case by simp
next
  case (Cons c cs)
  show ?case
  proof (cases "c = newline")
    case True
    then show ?thesis using Cons by (cases "cs = []") auto
  next
    case False
    then show ?thesis using Cons by (cases "cs = []") (auto split: list.splits)
  qed
qed

lemma row_count_rows:
  assumes "file_lines t = header # rows"
  shows "row_count t = int (length rows) - (if last t = newline then 0 else 1)"
proof -
  from assms have "t \<noteq> []" by auto
  with length_file_lines [of t] assms length_split_newline [of t]
  show ?thesis by (auto simp: row_count_def split: if_splits)
qed

lemma file_lines_line:
  "newline \<notin> set l \<Longrightarrow> file_lines (l @ newline # rest) = (l @ [newline]) # file_lines rest"
  by (induction l) auto

lemma file_lines_terminated:
  "\<forall>l \<in> set ls. newline \<notin> set l \<Longrightarrow> file_lines (terminated ls) = map (\<lambda>l. l @ [newline]) ls"
proof (induction ls)
  case Nil
  then show ?case by (simp add: terminated_def)
next
  case (Cons l ls)
  then have "file_lines (l @ newline # terminated ls) = (l @ [newline]) # file_lines (terminated ls)"
    by (intro file_lines_line) simp
  with Cons show ?case by (simp add: terminated_def)
qed

lemma file_lines_last_line:
  "newline \<notin> set l \<Longrightarrow> l \<noteq> [] \<Longrightarrow> file_lines l = [l]"
proof (induction l)
  case Nil
  then show ?case by simp
next
  case (Cons c l)
  then show ?case by (cases "l = []") (auto split: list.splits)
qed

lemma file_lines_unterminated:
  assumes "\<forall>l \<in> set ls. newline \<notin> set l" "newline \<notin> set l'" "l' \<noteq> []"
  shows "file_lines (terminated ls @ l') = map (\<lambda>l. l @ [newline]) ls @ [l']"
  using assms(1)
proof (induction ls)
  case Nil
  then show ?case using assms(2,3) by (simp add: terminated_def file_lines_last_line)
next
  case (Cons l ls)
  then have "file_lines (l @ newline # (terminated ls @ l')) = (l @ [newline]) # file_lines (terminated ls @ l')"
    by (intro file_lines_line) simp
  with Cons show ?case by (simp add: terminated_def)
qed

lemma split_newline_line:
  "newline \<notin> set l \<Longrightarrow> split_newline (l @ newline # rest) = l # split_newline rest"
  by (induction l) auto

lemma split_newline_terminated:
  "\<forall>l \<in> set ls. newline \<notin> set l \<Longrightarrow> split_newline (terminated ls) = ls @ [[]]"
proof (induction ls)
  case Nil
  then show ?case by (simp add: terminated_def)
next
  case (Cons l ls)
  then have "split_newline (l @ newline # terminated ls) = l # split_newline (terminated ls)"
    by (intro split_newline_line) simp
  with Cons show ?case by (simp add: terminated_def)
qed

lemma row_count_terminated:
  assumes "list_all (\<lambda>l. newline \<notin> set l) ls"
  shows "row_count (terminated ls) = int (length ls) - 2 + 1"
proof -
  from assms have "split_newline (terminated ls) = ls @ [[]]"
    by (intro split_newline_terminated) (simp add: list_all_iff)
  then show ?thesis by (simp add: row_count_def)
qed

lemma dropWhile_none:
  "\<forall>c \<in> set xs. \<not> P c \<Longrightarrow> dropWhile P xs = xs"
  by (cases xs) simp_all

lemma rstrip_newline_plain:
  "newline \<notin> set l \<Longrightarrow> rstrip_newline l = l"
proof -
  assume "newline \<notin> set l"
  then have "\<forall>c \<in> set (rev l). \<not> c = newline" by auto
  then have "dropWhile (\<lambda>c. c = newline) (rev l) = rev l" by (rule dropWhile_none)
  then show ?thesis by (simp add: rstrip_newline_def)
qed

lemma rstrip_newline_line:
  "newline \<notin> set l \<Longrightarrow> rstrip_newline (l @ [newline]) = l"
  using rstrip_newline_plain [of l] by (simp add: rstrip_newline_def)

lemma digit_char_not_newline: "d < 10 \<Longrightarrow> digit_char d \<noteq> newline"
proof -
  assume "d < 10"
  then have "digit_char d \<in> set ''0123456789''"
    unfolding digit_char_def by (intro nth_mem) simp
  moreover have "newline \<notin> set ''0123456789''" by (simp add: newline_def)
  ultimately show ?thesis by metis
qed

lemma str_of_nat_no_newline: "newline \<notin> set (str_of_nat n)"
proof (induction n rule: str_of_nat.induct)
  case (1 n)
  show ?case
  proof (cases "n < 10")
    case True
    then show ?thesis using digit_char_not_newline [of n] by (simp add: str_of_nat.simps [of n])
  next
    case False
    then show ?thesis
      using "1.IH" digit_char_not_newline [of "n mod 10"] by (simp add: str_of_nat.simps [of n])
  qed
qed

lemma str_of_nat_0: "str_of_nat 0 = ''0''"
  by (simp add: str_of_nat.simps [of 0] digit_char_def)

lemma str_of_nat_1: "str_of_nat (Suc 0) = ''1''"
  by (simp add: str_of_nat.simps [of "Suc 0"] digit_char_def)

section \<open>Properties of the replay worker\<close>

lemma invocations_append [simp]: "invocations (xs @ ys) = invocations xs @ invocations ys"
  by (induction xs rule: invocations.induct) simp_all

lemma sleeps_append [simp]: "sleeps (xs @ ys) = sleeps xs @ sleeps ys"
  by (induction xs rule: sleeps.induct) simp_all

lemma body_cases:
  obtains (client_raises) e where
      "runtime_client ind (rstrip_newline row) = Inl e"
      "body runtime_client clock count sleep_time ind tick row = ([Invoke (rstrip_newline row)], Some e)"
  | (modulus_raises) response e where
      "runtime_client ind (rstrip_newline row) = Inr response"
      "body runtime_client clock count sleep_time ind tick row = ([Invoke (rstrip_newline row)], Some e)"
      "progress_every count = Inl e \<or> (progress_every count = Inr 0 \<and> e = ZeroDivisionError)"
  | (continues) response m evs where
      "runtime_client ind (rstrip_newline row) = Inr response"
      "progress_every count = Inr m" "m \<noteq> 0"
      "body runtime_client clock count sleep_time ind tick row = (Invoke (rstrip_newline row) # evs, None)"
      "invocations evs = []"
proof (cases "runtime_client ind (rstrip_newline row)")
  case (Inl e)
  then show ?thesis using client_raises by (simp add: body_def)
next
  case (Inr response)
  show ?thesis
  proof (cases "progress_every count")
    case (Inl e)
    with Inr show ?thesis using modulus_raises by (simp add: body_def)
  next
    case m: (Inr m)
    show ?thesis
    proof (cases "m = 0")
      case True
      with Inr m show ?thesis using modulus_raises by (simp add: body_def)
    next
      case False
      with Inr m show ?thesis using continues [of response m] by (simp add: body_def Let_def)
    qed
  qed
qed

lemma body_sleeps:
  assumes "body c clk count st ind tick row = (evs, None)"
  shows "sleeps evs = [py_max0 (float_sub st (float_sub (clk (tick + 1)) (clk tick)))]"
  using assms by (auto simp: body_def Let_def split: sum.splits if_splits)

lemma replay_complete:
  "replay c clk count st ind tick rows = (evs, None) \<Longrightarrow>
   invocations evs = map rstrip_newline rows"
proof (induction rows arbitrary: ind tick evs)
  case Nil
  then show ?case by simp
next
  case (Cons row rows)
  show ?case
  proof (cases rule: body_cases [of c ind row clk count st tick])
    case (client_raises e)
    with Cons.prems show ?thesis by simp
  next
    case (modulus_raises response e)
    with Cons.prems show ?thesis by simp
  next
    case (continues response m evs0)
    obtain evs' r where r: "replay c clk count st (ind + 1) (tick + 2) rows = (evs', r)"
      by (cases "replay c clk count st (ind + 1) (tick + 2) rows")
    with Cons.prems continues have "r = None" "evs = (Invoke (rstrip_newline row) # evs0) @ evs'"
      by simp_all
    with Cons.IH [of "ind + 1" "tick + 2" evs'] r continues show ?thesis by simp
  qed
qed

lemma replay_prefix:
  "replay c clk count st ind tick rows = (evs, r) \<Longrightarrow>
   invocations evs = take (length (invocations evs)) (map rstrip_newline rows)"
proof (induction rows arbitrary: ind tick evs r)
  case Nil
  then show ?case by simp
next
  case (Cons row rows)
  show ?case
  proof (cases rule: body_cases [of c ind row clk count st tick])
    case (client_raises e)
    with Cons.prems show ?thesis by auto
  next
    case (modulus_raises response e)
    with Cons.prems show ?thesis by auto
  next
    case (continues response m evs0)
    obtain evs' r' where r: "replay c clk count st (ind + 1) (tick + 2) rows = (evs', r')"
      by (cases "replay c clk count st (ind + 1) (tick + 2) rows")
    with Cons.prems continues have "evs = (Invoke (rstrip_newline row) # evs0) @ evs'"
      by simp_all
    with Cons.IH [OF r] continues show ?thesis by simp
  qed
qed

lemma replay_raise:
  "replay c clk count st ind tick rows = (evs, r) \<Longrightarrow> k < length (invocations evs) \<Longrightarrow>
   c (ind + k) (invocations evs ! k) = Inl e \<Longrightarrow>
   r = Some e \<and> length (invocations evs) = Suc k"
proof (induction rows arbitrary: ind tick evs r k)
  case Nil
  then show ?case by simp
next
  case (Cons row rows)
  show ?case
  proof (cases rule: body_cases [of c ind row clk count st tick])
    case (client_raises e')
    with Cons.prems show ?thesis by auto
  next
    case (modulus_raises response e')
    with Cons.prems show ?thesis by auto
  next
    case (continues response m evs0)
    obtain evs' r' where r: "replay c clk count st (ind + 1) (tick + 2) rows = (evs', r')"
      by (cases "replay c clk count st (ind + 1) (tick + 2) rows")
    with Cons.prems(1) continues
    have evs: "evs = (Invoke (rstrip_newline row) # evs0) @ evs'" and rr: "r = r'"
      by simp_all
    then have inv: "invocations evs = rstrip_newline row # invocations evs'"
      using continues by simp
    show ?thesis
    proof (cases k)
      case 0
      with Cons.prems(3) inv continues show ?thesis by simp
    next
      case (Suc k')
      with Cons.prems(2,3) inv
      have "k' < length (invocations evs')" "c (ind + 1 + k') (invocations evs' ! k') = Inl e"
        by simp_all
      from Cons.IH [OF r this] inv rr Suc show ?thesis by simp
    qed
  qed
qed

lemma replay_succeeds:
  assumes "\<And>k p. \<exists>resp. c k p = Inr resp" "progress_every count = Inr m" "m \<noteq> 0"
  shows "snd (replay c clk count st ind tick rows) = None"
proof (induction rows arbitrary: ind tick)
  case Nil
  then show ?case by simp
next
  case (Cons row rows)
  show ?case
  proof (cases rule: body_cases [of c ind row clk count st tick])
    case (client_raises e)
    with assms(1) [of ind "rstrip_newline row"] show ?thesis by simp
  next
    case (modulus_raises response e)
    with assms(2,3) show ?thesis by auto
  next
    case (continues response m evs0)
    with Cons.IH [of "ind + 1" "tick + 2"] show ?thesis by (auto split: prod.splits)
  qed
qed

lemma invoke_endpoint_cases:
  obtains (no_interval) e where
      "sleep_interval t = Inl e" "invoke_endpoint c clk t = ([], Inl e)"
  | (no_header) st where
      "sleep_interval t = Inr st" "file_lines t = []" "invoke_endpoint c clk t = ([], Inl StopIteration)"
  | (raised) st header rows evs e where
      "sleep_interval t = Inr st" "file_lines t = header # rows"
      "replay c clk (row_count t) st 0 1 rows = (evs, Some e)"
      "invoke_endpoint c clk t = (evs, Inl e)"
  | (returned) st header rows evs where
      "sleep_interval t = Inr st" "file_lines t = header # rows"
      "replay c clk (row_count t) st 0 1 rows = (evs, None)"
      "invoke_endpoint c clk t = (evs @ [Print ''Done!''], Inr ())"
proof (cases "sleep_interval t")
  case (Inl e)
  then show ?thesis using no_interval by (simp add: invoke_endpoint_def)
next
  case (Inr st)
  show ?thesis
  proof (cases "file_lines t")
    case Nil
    with Inr show ?thesis using no_header by (simp add: invoke_endpoint_def)
  next
    case (Cons header rows)
    obtain evs r where r: "replay c clk (row_count t) st 0 1 rows = (evs, r)"
      by (cases "replay c clk (row_count t) st 0 1 rows")
    show ?thesis
    proof (cases r)
      case None
      with Inr Cons r show ?thesis using returned by (simp add: invoke_endpoint_def)
    next
      case (Some e)
      with Inr Cons r show ?thesis using raised by (simp add: invoke_endpoint_def)
    qed
  qed
qed

lemma sleep_interval_terminated:
  assumes "list_all (\<lambda>l. newline \<notin> set l) (header # rows)" and "rows \<noteq> []"
  shows "sleep_interval (terminated (header # rows)) =
           Inr (round_double (36000 / of_nat (length rows)))"
proof -
  have c: "row_count (terminated (header # rows)) = int (length rows)"
    using row_count_terminated [OF assms(1)] by simp
  from assms(2) have pos: "1 \<le> int (length rows)" by (cases rows) simp_all
  from sleep_interval_defined [OF pos] obtain st where
    "py_truediv ten_hours_in_sec (int (length rows)) = Inr st" ..
  then show ?thesis
    by (auto simp: sleep_interval_def c py_truediv_def ten_hours_in_sec_def Let_def
        split: if_splits)
qed

lemma invoke_endpoint_replays_all:
  assumes lines: "list_all (\<lambda>l. newline \<notin> set l) (header # rows)"
    and many: "40 \<le> length rows"
    and answers: "\<And>k p. \<exists>response. c k p = Inr response"
    and fits: "progress_every (int (length rows)) \<noteq> Inl OverflowError"
  shows "snd (invoke_endpoint c clk (terminated (header # rows))) = Inr ()"
    and "invocations (fst (invoke_endpoint c clk (terminated (header # rows)))) = rows"
proof -
  let ?t = "terminated (header # rows)"
  have count: "row_count ?t = int (length rows)"
    using row_count_terminated [OF lines] by simp
  have fl: "file_lines ?t = (header @ [newline]) # map (\<lambda>l. l @ [newline]) rows"
    using lines by (subst file_lines_terminated) (simp_all add: list_all_iff)
  from many have "rows \<noteq> []" by auto
  from sleep_interval_terminated [OF lines this] obtain st where st: "sleep_interval ?t = Inr st"
    by blast
  obtain m where m: "progress_every (int (length rows)) = Inr m"
    using fits progress_every_error by (cases "progress_every (int (length rows))") auto
  from many have "40 \<le> int (length rows)" by simp
  from progress_every_large [OF this m] have m0: "m \<noteq> 0" by simp
  let ?r = "replay c clk (int (length rows)) st 0 1 (map (\<lambda>l. l @ [newline]) rows)"
  have "snd ?r = None" using answers m m0 by (rule replay_succeeds)
  then obtain evs where r: "?r = (evs, None)" by (cases ?r) auto
  then have run: "invoke_endpoint c clk ?t = (evs @ [Print ''Done!''], Inr ())"
    by (simp add: invoke_endpoint_def st fl count)
  then show "snd (invoke_endpoint c clk ?t) = Inr ()" by simp
  have "map rstrip_newline (map (\<lambda>l. l @ [newline]) rows) = rows"
    using lines by (simp add: list_all_iff rstrip_newline_line map_idI)
  with replay_complete [OF r] run
  show "invocations (fst (invoke_endpoint c clk ?t)) = rows" by simp
qed

lemma two_row_file_lines:
  "file_lines two_row_file = [''x,y'' @ [newline], ''1,2'' @ [newline], ''3,4'' @ [newline]]"
  unfolding two_row_file_def by (subst file_lines_terminated) (simp_all add: newline_def)

lemma two_row_file_count: "row_count two_row_file = 2"
  unfolding two_row_file_def row_count_def
  by (subst split_newline_terminated) (simp_all add: newline_def)

lemma three_row_file_lines:
  "file_lines three_row_file =
     [''x,y'' @ [newline], ''1,2'' @ [newline], ''3,4'' @ [newline], ''5,6'' @ [newline]]"
  unfolding three_row_file_def by (subst file_lines_terminated) (simp_all add: newline_def)

lemma three_row_file_count: "row_count three_row_file = 3"
  unfolding three_row_file_def row_count_def
  by (subst split_newline_terminated) (simp_all add: newline_def)

lemma forty_row_file_lines:
  "file_lines forty_row_file = (''id'' @ [newline]) # map (\<lambda>l. l @ [newline]) (map str_of_nat [0..<40])"
proof -
  have "newline \<notin> set ''id''" by (simp add: newline_def)
  then have "\<forall>l \<in> set (''id'' # map str_of_nat [0..<40]). newline \<notin> set l"
    by (auto simp: str_of_nat_no_newline)
  then show ?thesis unfolding forty_row_file_def by (subst file_lines_terminated) simp_all
qed

lemma forty_row_file_count: "row_count forty_row_file = 40"
proof -
  have "newline \<notin> set ''id''" by (simp add: newline_def)
  then have "\<forall>l \<in> set (''id'' # map str_of_nat [0..<40]). newline \<notin> set l"
    by (auto simp: str_of_nat_no_newline)
  then show ?thesis unfolding forty_row_file_def row_count_def
    by (subst split_newline_terminated) simp_all
qed

lemma forty_row_file_interval: "sleep_interval forty_row_file = Inr 900"
proof -
  have "py_truediv ten_hours_in_sec 40 = Inr (of_int 900)"
    by (rule py_truediv_exact) (simp_all add: ten_hours_in_sec_def)
  then show ?thesis by (simp add: sleep_interval_def forty_row_file_count)
qed

lemma forty_row_file_payloads:
  "map rstrip_newline (data_rows forty_row_file) = map str_of_nat [0..<40]"
  by (simp add: data_rows_def forty_row_file_lines rstrip_newline_line str_of_nat_no_newline)

lemma upt_40: "[0..<40] = 0 # 1 # [2..<40]"
proof -
  have "[0..<40] = 0 # [Suc 0..<40]" by (rule upt_conv_Cons) simp
  moreover have "[Suc 0..<40] = Suc 0 # [Suc (Suc 0)..<40]" by (rule upt_conv_Cons) simp
  ultimately show ?thesis by (simp add: numeral_2_eq_2)
qed

text \<open>
  Claim C1 at a file with a header and two data rows, with an endpoint that answers every
  call: only the first row is sent, then the modulo by zero ends the run; the second row
  is never sent.
\<close>

theorem two_row_file_stops_after_first_row:
  "data_rows two_row_file = [''1,2'' @ [newline], ''3,4'' @ [newline]] \<and>
   invoke_endpoint always_ok frozen_clock two_row_file = ([Invoke ''1,2''], Inl ZeroDivisionError)"
proof -
  have "py_truediv ten_hours_in_sec 2 = Inr (of_int 18000)"
    by (rule py_truediv_exact) (simp_all add: ten_hours_in_sec_def)
  then have st: "sleep_interval two_row_file = Inr 18000"
    by (simp add: sleep_interval_def two_row_file_count)
  have "rstrip_newline (''1,2'' @ [newline]) = ''1,2''"
    by (rule rstrip_newline_line) (simp add: newline_def)
  moreover have "progress_every 2 = Inr 0" by (rule progress_every_small) simp_all
  ultimately have "body always_ok frozen_clock 2 18000 0 1 (''1,2'' @ [newline]) =
      ([Invoke ''1,2''], Some ZeroDivisionError)"
    by (simp add: body_def always_ok_def)
  then show ?thesis
    using st by (simp add: invoke_endpoint_def data_rows_def two_row_file_lines two_row_file_count)
qed

text \<open>
  Claim C2 at a file with a header and two data rows whose last line has no newline:
  \<open>count\<close> is 1, so the sleep interval is 36000 seconds, where 36000 divided by the number
  of data rows is 18000.
\<close>

theorem unterminated_file_interval:
  "data_rows unterminated_file = [''1,2'' @ [newline], ''3,4''] \<and>
   row_count unterminated_file = 1 \<and>
   sleep_interval unterminated_file = Inr 36000 \<and>
   py_truediv ten_hours_in_sec (int (length (data_rows unterminated_file))) = Inr 18000"
proof -
  have l: "file_lines unterminated_file = map (\<lambda>l. l @ [newline]) [''x,y'', ''1,2''] @ [''3,4'']"
    unfolding unterminated_file_def by (rule file_lines_unterminated) (simp_all add: newline_def)
  have "split_newline (''x,y'' @ newline # ''1,2'' @ newline # ''3,4'') = [''x,y'', ''1,2'', ''3,4'']"
    by (simp add: split_newline_line newline_def)
  then have c: "row_count unterminated_file = 1"
    by (simp add: row_count_def unterminated_file_def terminated_def)
  have "py_truediv ten_hours_in_sec 1 = Inr (of_int 36000)"
    by (rule py_truediv_exact) (simp_all add: ten_hours_in_sec_def)
  moreover have "py_truediv ten_hours_in_sec 2 = Inr (of_int 18000)"
    by (rule py_truediv_exact) (simp_all add: ten_hours_in_sec_def)
  ultimately show ?thesis using l c by (simp add: data_rows_def sleep_interval_def)
qed

text \<open>
  Claim C6. Whenever a call of the endpoint made by the loop raises an exception, be it
  the \<open>k\<close>-th, \<open>invoke_endpoint\<close> raises that very exception, and the payloads sent are
  those of the first \<open>k + 1\<close> data rows and no more: the failed row is tried once and no
  later row is sent.
\<close>

theorem invoke_endpoint_propagates_exception:
  assumes "k < length (invocations (fst (invoke_endpoint c clk t)))"
    and "c k (invocations (fst (invoke_endpoint c clk t)) ! k) = Inl e"
  shows "snd (invoke_endpoint c clk t) = Inl e \<and>
         invocations (fst (invoke_endpoint c clk t)) = map rstrip_newline (take (Suc k) (data_rows t))"
proof (cases rule: invoke_endpoint_cases [of t c clk])
  case (no_interval e)
  with assms(1) show ?thesis by simp
next
  case (no_header st)
  with assms(1) show ?thesis by simp
next
  case (raised st header rows evs e')
  with assms have k: "k < length (invocations evs)" "c (0 + k) (invocations evs ! k) = Inl e"
    by simp_all
  from replay_raise [OF raised(3) k] have "e' = e" "length (invocations evs) = Suc k" by simp_all
  with replay_prefix [OF raised(3)] raised show ?thesis
    by (simp add: data_rows_def take_map)
next
  case (returned st header rows evs)
  with assms have k: "k < length (invocations evs)" "c (0 + k) (invocations evs ! k) = Inl e"
    by simp_all
  from replay_raise [OF returned(3) k] show ?thesis by simp
qed

text \<open>
  On the file of forty numbered rows, with an endpoint that fails at its second call: the
  first row is sent and slept on, the second is sent and its exception ends the run.
\<close>

theorem invoke_endpoint_propagates_exception_witness:
  "invoke_endpoint (fails_at 1) frozen_clock forty_row_file =
     ([Invoke ''0'', Print ''Finished sending 1 records.'', Sleep 900, Invoke ''1''],
      Inl (OtherError ''EndpointConnectionError'')) \<and>
   map rstrip_newline (take 2 (data_rows forty_row_file)) = [''0'', ''1'']"
proof -
  let ?e = "OtherError ''EndpointConnectionError''"
  have r0: "float_sub 0 0 = 0" by (simp add: float_sub_def round_double_def)
  have "round_double (of_int 900) = of_int 900" by (rule round_double_of_int) simp
  then have r900: "float_sub 900 0 = 900" by (simp add: float_sub_def)
  have rs: "rstrip_newline (''0'' @ [newline]) = ''0''" "rstrip_newline (''1'' @ [newline]) = ''1''"
    by (rule rstrip_newline_line, simp add: newline_def)+
  have b0: "body (fails_at 1) frozen_clock 40 900 0 1 (''0'' @ [newline]) =
      ([Invoke ''0'', Print ''Finished sending 1 records.'', Sleep 900], None)"
    using rs by (simp add: body_def fails_at_def progress_every_40 frozen_clock_def r0 r900
        py_max0_def str_of_nat_1)
  have b1: "body (fails_at 1) frozen_clock 40 900 (0 + 1) (1 + 2) (''1'' @ [newline]) =
      ([Invoke ''1''], Some ?e)"
    using rs by (simp add: body_def fails_at_def)
  define rest where "rest = map (\<lambda>l. l @ [newline]) (map str_of_nat [2..<40])"
  have lines: "file_lines forty_row_file =
      (''id'' @ [newline]) # (''0'' @ [newline]) # (''1'' @ [newline]) # rest"
    by (simp add: forty_row_file_lines upt_40 str_of_nat_0 str_of_nat_1 rest_def)
  have rp: "replay (fails_at 1) frozen_clock 40 900 0 1 ((''0'' @ [newline]) # (''1'' @ [newline]) # rest) =
      ([Invoke ''0'', Print ''Finished sending 1 records.'', Sleep 900, Invoke ''1''], Some ?e)"
    by (simp only: replay.simps b0 b1 prod.case option.case) simp
  have run: "invoke_endpoint (fails_at 1) frozen_clock forty_row_file =
      ([Invoke ''0'', Print ''Finished sending 1 records.'', Sleep 900, Invoke ''1''], Inl ?e)"
    by (simp only: invoke_endpoint_def forty_row_file_interval lines forty_row_file_count rp
        sum.case list.case prod.case option.case)
  then have inv: "invocations (fst (invoke_endpoint (fails_at 1) frozen_clock forty_row_file)) = [''0'', ''1'']"
    by simp
  have "fails_at 1 1 ''1'' = Inl ?e" by (simp add: fails_at_def)
  with invoke_endpoint_propagates_exception [of 1 "fails_at 1" frozen_clock forty_row_file ?e] inv run
  show ?thesis by (simp add: numeral_2_eq_2)
qed

text \<open>
  Claim C7 at a file with a header and three data rows, with an endpoint that answers every
  call: the loop stops in its first iteration, at the modulo by zero of the progress
  print, while two data rows remain unsent, and \<open>invoke_endpoint\<close> ends there.
\<close>

theorem replay_stops_with_rows_unsent:
  "data_rows three_row_file = [''1,2'' @ [newline], ''3,4'' @ [newline], ''5,6'' @ [newline]] \<and>
   row_count three_row_file = 3 \<and>
   sleep_interval three_row_file = Inr 12000 \<and>
   replay always_ok frozen_clock 3 12000 0 1 (data_rows three_row_file) =
     ([Invoke ''1,2''], Some ZeroDivisionError) \<and>
   invoke_endpoint always_ok frozen_clock three_row_file = ([Invoke ''1,2''], Inl ZeroDivisionError)"
proof -
  have "py_truediv ten_hours_in_sec 3 = Inr (of_int 12000)"
    by (rule py_truediv_exact) (simp_all add: ten_hours_in_sec_def)
  then have st: "sleep_interval three_row_file = Inr 12000"
    by (simp add: sleep_interval_def three_row_file_count)
  have "rstrip_newline (''1,2'' @ [newline]) = ''1,2''"
    by (rule rstrip_newline_line) (simp add: newline_def)
  moreover have "progress_every 3 = Inr 0" by (rule progress_every_small) simp_all
  ultimately have "body always_ok frozen_clock 3 12000 0 1 (''1,2'' @ [newline]) =
      ([Invoke ''1,2''], Some ZeroDivisionError)"
    by (simp add: body_def always_ok_def)
  then show ?thesis
    using st
    by (simp add: invoke_endpoint_def data_rows_def three_row_file_lines three_row_file_count)
qed

text \<open>
  A file with a header and fewer than forty data rows, other than a header alone with no
  newline after it, does end in \<open>ZeroDivisionError\<close> when the first call of the endpoint
  (if there is a row to send) is answered: before any row is sent when \<open>count\<close> is zero
  (the division for the sleep interval), and after the first row has been sent otherwise
  (the modulo by \<open>int(count/ten_hours_in_sec*900) = 0\<close>).
\<close>

lemma small_file_raises_zero_division:
  assumes "file_lines t = header # rows" and "length rows < 40"
    and "rows \<noteq> [] \<or> last t = newline"
    and "rows \<noteq> [] \<longrightarrow> (\<exists>response. c 0 (rstrip_newline (hd rows)) = Inr response)"
  shows "invoke_endpoint c clk t =
           (if row_count t = 0 then [] else [Invoke (rstrip_newline (hd rows))],
            Inl ZeroDivisionError)"
proof -
  have rc: "row_count t = int (length rows) - (if last t = newline then 0 else 1)"
    using assms(1) by (rule row_count_rows)
  show ?thesis
  proof (cases "row_count t = 0")
    case True
    then show ?thesis by (simp add: invoke_endpoint_def sleep_interval_def py_truediv_def)
  next
    case False
    define n where "n = int (length rows)"
    have n: "0 \<le> n" "n < 40" using assms(2) by (simp_all add: n_def)
    have "rows \<noteq> [] \<longrightarrow> 1 \<le> n" by (cases rows) (simp_all add: n_def)
    with assms(3) have alt: "1 \<le> n \<or> last t = newline" by blast
    have rc': "row_count t = n - (if last t = newline then 0 else 1)"
      using rc by (simp add: n_def)
    have "1 \<le> row_count t"
      using rc' False n alt by (cases "last t = newline") simp_all
    moreover have "row_count t \<le> 39"
      using rc' n by (cases "last t = newline") simp_all
    ultimately have c: "1 \<le> row_count t" "row_count t \<le> 39" by simp_all
    with rc' n obtain row rest where rows: "rows = row # rest"
      by (cases rows) (auto simp: n_def split: if_splits)
    obtain st where st: "sleep_interval t = Inr st"
      using sleep_interval_defined [OF c(1)] by (auto simp: sleep_interval_def)
    from assms(4) rows obtain response where "c 0 (rstrip_newline row) = Inr response" by auto
    then have "body c clk (row_count t) st 0 1 row = ([Invoke (rstrip_newline row)], Some ZeroDivisionError)"
      using progress_every_small [OF c] by (simp add: body_def)
    then show ?thesis using False st assms(1) rows by (simp add: invoke_endpoint_def)
  qed
qed

text \<open>
  Claim C8 at a file that holds only the header, with no newline after it: \<open>count\<close> is
  \<open>-1\<close>, not the number of data rows, so the division for the sleep interval does not
  fail (the interval is \<open>-36000.0\<close>), the loop has nothing to do, and the worker prints
  \<open>Done!\<close> and returns.
\<close>

theorem header_only_file_completes:
  "file_lines header_only_file = [header_only_file] \<and>
   data_rows header_only_file = [] \<and>
   row_count header_only_file = - 1 \<and>
   sleep_interval header_only_file = Inr (- 36000) \<and>
   invoke_endpoint always_ok frozen_clock header_only_file = ([Print ''Done!''], Inr ())"
proof -
  have l: "file_lines header_only_file = [header_only_file]"
    by (simp add: header_only_file_def newline_def)
  have c: "row_count header_only_file = - 1"
    by (simp add: row_count_def header_only_file_def newline_def)
  moreover have "py_truediv ten_hours_in_sec (- 1) = Inr (of_int (- 36000))"
    by (rule py_truediv_exact) (simp_all add: ten_hours_in_sec_def)
  ultimately have "sleep_interval header_only_file = Inr (- 36000)"
    by (simp add: sleep_interval_def)
  with l c show ?thesis by (simp add: invoke_endpoint_def data_rows_def)
qed

section \<open>Properties of the inference handler\<close>

lemma str_replace_char_removes: "c \<notin> set (str_replace_char c [] s)"
  by (induction s) (auto simp: str_replace_char_def)

lemma str_replace_char_absent: "c \<notin> set s \<Longrightarrow> str_replace_char c new s = s"
  by (induction s) (auto simp: str_replace_char_def)

lemma str_replace_char_append:
  "str_replace_char c new (s @ t) = str_replace_char c new s @ str_replace_char c new t"
  by (simp add: str_replace_char_def)

lemma str_replace_char_concat:
  "str_replace_char c new (concat ss) = concat (map (str_replace_char c new) ss)"
  by (induction ss) (simp_all add: str_replace_char_append, simp add: str_replace_char_def)

lemma join_no_newline:
  "list_all (\<lambda>f. newline \<notin> set f) fs \<Longrightarrow> newline \<notin> set (join '','' fs)"
  by (induction "'',''" fs rule: join.induct) (auto simp: newline_def)

lemma matrix_to_csv_flattened:
  assumes "list_all (\<lambda>row. list_all (\<lambda>x. newline \<notin> set (float_text x)) row) X"
  shows "str_replace_char newline [] (matrix_to_csv float_text X) =
           concat (map (\<lambda>row. join '','' (map float_text row)) X)"
proof -
  have "str_replace_char newline [] (join '','' (map float_text row) @ [newline]) =
          join '','' (map float_text row)" if "row \<in> set X" for row
  proof -
    from assms that have "list_all (\<lambda>f. newline \<notin> set f) (map float_text row)"
      by (simp add: list_all_iff)
    then have "newline \<notin> set (join '','' (map float_text row))" by (rule join_no_newline)
    then show ?thesis
      by (simp add: str_replace_char_append str_replace_char_absent) (simp add: str_replace_char_def)
  qed
  then show ?thesis
    unfolding matrix_to_csv_def str_replace_char_concat
    by (simp cong: map_cong)
qed

text \<open>
  Claim C10. Whatever the request body, the text that \<open>input_fn\<close> hands to the DMatrix
  encoder (\<open>req_transformed\<close>) has no newline character; when the floats are written
  without newlines it is the rows of the transformed matrix, each with its fields joined
  by commas, put one after the other with nothing between them; and on \<open>text/csv\<close> the
  handler's result is the encoder's result on that text.
\<close>

theorem req_transformed_single_record:
  "(req_transformed read_csv transform float_text request_body = Inr s \<longrightarrow> newline \<notin> set s) \<and>
   (read_csv request_body = Inr df \<and> transform df = Inr X \<and>
    list_all (\<lambda>row. list_all (\<lambda>x. newline \<notin> set (float_text x)) row) X \<longrightarrow>
      req_transformed read_csv transform float_text request_body =
        Inr (concat (map (\<lambda>row. join '','' (map float_text row)) X))) \<and>
   input_fn read_csv transform float_text csv_to_dmatrix request_body ''text/csv'' =
     (case req_transformed read_csv transform float_text request_body of
        Inl e \<Rightarrow> Inl e | Inr s \<Rightarrow> csv_to_dmatrix s)"
proof (intro conjI impI)
  assume "req_transformed read_csv transform float_text request_body = Inr s"
  then show "newline \<notin> set s"
    by (auto simp: req_transformed_def str_replace_char_removes split: sum.splits)
next
  assume "read_csv request_body = Inr df \<and> transform df = Inr X \<and>
    list_all (\<lambda>row. list_all (\<lambda>x. newline \<notin> set (float_text x)) row) X"
  then show "req_transformed read_csv transform float_text request_body =
        Inr (concat (map (\<lambda>row. join '','' (map float_text row)) X))"
    by (simp add: req_transformed_def matrix_to_csv_flattened)
next
  show "input_fn read_csv transform float_text csv_to_dmatrix request_body ''text/csv'' =
     (case req_transformed read_csv transform float_text request_body of
        Inl e \<Rightarrow> Inl e | Inr s \<Rightarrow> csv_to_dmatrix s)"
    by (simp add: input_fn_def)
qed

lemma two_line_body_frame:
  "read_csv_example (''a'' @ [newline] @ ''b'' @ [newline]) =
     Inr \<lparr>df_columns = [''0''], df_object = [True],
       df_rows = [(0, [Str ''a'']), (Suc 0, [Str ''b''])]\<rparr>"
proof -
  have "split_newline (''a'' @ newline # ''b'' @ newline # []) = [''a'', ''b'', []]"
    by (simp add: split_newline_line newline_def)
  moreover have "[0..<2] = [0, Suc 0]" by (simp add: numeral_2_eq_2)
  ultimately show ?thesis by (simp add: read_csv_example_def)
qed

lemma two_line_body_matrix:
  "transform_example \<lparr>df_columns = [''0''], df_object = [True],
       df_rows = [(0, [Str ''a'']), (Suc 0, [Str ''b''])]\<rparr> =
     Inr [[0, 1], [1, 1]]"
  by (simp add: transform_example_def)

lemma two_line_body_text:
  "str_replace_char newline [] (matrix_to_csv float_text_example [[0, 1], [1, 1]]) =
     ''0.0,1.01.0,1.0''"
  by (simp add: matrix_to_csv_def float_text_example_def str_replace_char_def newline_def)

lemma two_line_body_req:
  "req_transformed read_csv_example transform_example float_text_example
     (''a'' @ [newline] @ ''b'' @ [newline]) = Inr ''0.0,1.01.0,1.0''"
  by (simp only: req_transformed_def two_line_body_frame two_line_body_matrix two_line_body_text
      sum.case)

text \<open>A body of two lines: the two transformed rows \<open>0.0,1.0\<close> and \<open>1.0,1.0\<close> arrive as one.\<close>

theorem req_transformed_single_record_witness:
  "req_transformed read_csv_example transform_example float_text_example
     (''a'' @ [newline] @ ''b'' @ [newline]) = Inr ''0.0,1.01.0,1.0'' \<and>
   newline \<notin> set ''0.0,1.01.0,1.0'' \<and>
   list_all (\<lambda>row. list_all (\<lambda>x. newline \<notin> set (float_text_example x)) row) [[0, 1], [1, 1]] \<and>
   concat (map (\<lambda>row. join '','' (map float_text_example row)) [[0, 1], [1, 1]]) = ''0.0,1.01.0,1.0'' \<and>
   input_fn read_csv_example transform_example float_text_example csv_to_dmatrix_example
     (''a'' @ [newline] @ ''b'' @ [newline]) ''text/csv'' = Inr ''0.0,1.01.0,1.0''"
proof -
  let ?body = "''a'' @ [newline] @ ''b'' @ [newline]"
  let ?df = "\<lparr>df_columns = [''0''], df_object = [True],
       df_rows = [(0, [Str ''a'']), (Suc 0, [Str ''b''])]\<rparr>"
  note t = req_transformed_single_record [of read_csv_example transform_example float_text_example
      ?body "''0.0,1.01.0,1.0''" ?df "[[0, 1], [1, 1]]" csv_to_dmatrix_example]
  have ok: "list_all (\<lambda>row. list_all (\<lambda>x. newline \<notin> set (float_text_example x)) row) [[0, 1], [1, 1]]"
    by (simp add: float_text_example_def newline_def)
  from t two_line_body_req have 1: "newline \<notin> set ''0.0,1.01.0,1.0''" by blast
  from t two_line_body_frame two_line_body_matrix ok
  have "req_transformed read_csv_example transform_example float_text_example ?body =
      Inr (concat (map (\<lambda>row. join '','' (map float_text_example row)) [[0, 1], [1, 1]]))"
    by blast
  with two_line_body_req
  have 2: "concat (map (\<lambda>row. join '','' (map float_text_example row)) [[0, 1], [1, 1]]) = ''0.0,1.01.0,1.0''"
    by simp
  from t have "input_fn read_csv_example transform_example float_text_example csv_to_dmatrix_example
      ?body ''text/csv'' =
      (case req_transformed read_csv_example transform_example float_text_example ?body of
         Inl e \<Rightarrow> Inl e | Inr s \<Rightarrow> csv_to_dmatrix_example s)"
    by blast
  then have 3: "input_fn read_csv_example transform_example float_text_example csv_to_dmatrix_example
      ?body ''text/csv'' = Inr ''0.0,1.01.0,1.0''"
    unfolding two_line_body_req by (simp add: csv_to_dmatrix_example_def)
  from two_line_body_req 1 ok 2 3 show ?thesis by blast
qed

lemma question_mark_body_frame:
  "read_csv_example (''?'' @ [newline]) =
     Inr \<lparr>df_columns = [''0''], df_object = [True], df_rows = [(0, [Str ''?''])]\<rparr>"
proof -
  have "split_newline (''?'' @ newline # []) = [''?'', []]"
    by (simp add: split_newline_line newline_def)
  then show ?thesis by (simp add: read_csv_example_def)
qed

lemma two_line_body_strict:
  "transform_strict \<lparr>df_columns = [''0''], df_object = [True],
       df_rows = [(0, [Str ''a'']), (Suc 0, [Str ''b''])]\<rparr> =
     Inr [[0, 1], [1, 1]]"
  by (simp add: transform_strict_def transform_example_def)

text \<open>
  Claim C9, amended. For a content type other than \<open>text/csv\<close> the handler raises its
  \<open>ValueError\<close> naming the content type. For \<open>text/csv\<close> an exception raised by
  \<open>read_csv\<close> is the handler's outcome; so is an exception raised by \<open>transform\<close> on the
  frame read; and when both succeed the handler's outcome is that of the encoder on the
  transformed text without its newlines: its DMatrix, or the exception it raises.
\<close>

theorem input_fn_content_type:
  "(content_type \<noteq> ''text/csv'' \<longrightarrow>
      input_fn read_csv transform float_text csv_to_dmatrix request_body content_type =
        Inl (ValueError (''Content type '' @ content_type @ '' is not supported.''))) \<and>
   (read_csv unread_body = Inl e \<longrightarrow>
      input_fn read_csv transform float_text csv_to_dmatrix unread_body ''text/csv'' = Inl e) \<and>
   (read_csv refused_body = Inr refused_df \<and> transform refused_df = Inl e' \<longrightarrow>
      input_fn read_csv transform float_text csv_to_dmatrix refused_body ''text/csv'' = Inl e') \<and>
   (read_csv csv_body = Inr df \<and> transform df = Inr X \<longrightarrow>
      input_fn read_csv transform float_text csv_to_dmatrix csv_body ''text/csv'' =
        csv_to_dmatrix (str_replace_char newline [] (matrix_to_csv float_text X)))"
  by (simp add: input_fn_def req_transformed_def)

text \<open>
  The example library at \<open>application/json\<close>; at \<open>text/csv\<close> with an empty body, which
  \<open>read_csv\<close> refuses; with the body \<open>?\<close>, which \<open>transform\<close> refuses; and with a body
  of two lines.
\<close>

theorem input_fn_content_type_witness:
  "input_fn read_csv_example transform_strict float_text_example csv_to_dmatrix_example
     (''a'' @ [newline] @ ''b'' @ [newline]) ''application/json'' =
     Inl (ValueError ''Content type application/json is not supported.'') \<and>
   read_csv_example [] = Inl (ValueError ''No columns to parse from file'') \<and>
   input_fn read_csv_example transform_strict float_text_example csv_to_dmatrix_example
     [] ''text/csv'' = Inl (ValueError ''No columns to parse from file'') \<and>
   transform_strict \<lparr>df_columns = [''0''], df_object = [True], df_rows = [(0, [Str ''?''])]\<rparr> =
     Inl (ValueError ''Cannot use mean strategy with non-numeric data'') \<and>
   input_fn read_csv_example transform_strict float_text_example csv_to_dmatrix_example
     (''?'' @ [newline]) ''text/csv'' =
     Inl (ValueError ''Cannot use mean strategy with non-numeric data'') \<and>
   input_fn read_csv_example transform_strict float_text_example csv_to_dmatrix_example
     (''a'' @ [newline] @ ''b'' @ [newline]) ''text/csv'' = Inr ''0.0,1.01.0,1.0''"
proof -
  let ?body = "''a'' @ [newline] @ ''b'' @ [newline]"
  let ?df = "\<lparr>df_columns = [''0''], df_object = [True],
       df_rows = [(0, [Str ''a'']), (Suc 0, [Str ''b''])]\<rparr>"
  let ?qf = "\<lparr>df_columns = [''0''], df_object = [True], df_rows = [(0, [Str ''?''])]\<rparr>"
  let ?e = "ValueError ''No columns to parse from file''"
  let ?e' = "ValueError ''Cannot use mean strategy with non-numeric data''"
  note t = input_fn_content_type [of "''application/json''" read_csv_example transform_strict
      float_text_example csv_to_dmatrix_example ?body "[]" ?e "''?'' @ [newline]" ?qf ?e'
      ?body ?df "[[0, 1], [1, 1]]"]
  have ne: "''application/json'' \<noteq> ''text/csv''" by simp
  have r: "read_csv_example [] = Inl ?e" by (simp add: read_csv_example_def)
  have q: "transform_strict ?qf = Inl ?e'" by (simp add: transform_strict_def)
  from t ne have "input_fn read_csv_example transform_strict float_text_example
      csv_to_dmatrix_example ?body ''application/json'' =
      Inl (ValueError (''Content type '' @ ''application/json'' @ '' is not supported.''))"
    by blast
  then have 1: "input_fn read_csv_example transform_strict float_text_example
      csv_to_dmatrix_example ?body ''application/json'' =
      Inl (ValueError ''Content type application/json is not supported.'')"
    by simp
  from t r have 2: "input_fn read_csv_example transform_strict float_text_example
      csv_to_dmatrix_example [] ''text/csv'' = Inl ?e"
    by blast
  from t question_mark_body_frame q
  have 3: "input_fn read_csv_example transform_strict float_text_example
      csv_to_dmatrix_example (''?'' @ [newline]) ''text/csv'' = Inl ?e'"
    by blast
  from t two_line_body_frame two_line_body_strict
  have "input_fn read_csv_example transform_strict float_text_example
      csv_to_dmatrix_example ?body ''text/csv'' =
      csv_to_dmatrix_example (str_replace_char newline []
        (matrix_to_csv float_text_example [[0, 1], [1, 1]]))"
    by blast
  then have 4: "input_fn read_csv_example transform_strict float_text_example
      csv_to_dmatrix_example ?body ''text/csv'' = Inr ''0.0,1.01.0,1.0''"
    unfolding two_line_body_text by (simp add: csv_to_dmatrix_example_def)
  from 1 r 2 q 3 4 show ?thesis by blast
qed

text \<open>
  Claim C9 as stated fails on an empty body sent as \<open>text/csv\<close>: \<open>read_csv\<close> raises its
  \<open>EmptyDataError\<close>, a \<open>ValueError\<close>, and the handler lets it through.
\<close>

theorem input_fn_empty_body_raises_value_error:
  "input_fn read_csv_example transform_example float_text_example csv_to_dmatrix_example
     [] ''text/csv'' = Inl (ValueError ''No columns to parse from file'')"
  by (simp add: input_fn_def req_transformed_def read_csv_example_def)

section \<open>Properties of the data preparation\<close>

lemma column_names_length: "length column_names = 15"
  by (simp add: column_names_def)

lemma read_csv_names_columns:
  "read_csv_names names parsed = Inr df \<Longrightarrow> df_columns df = names"
  by (auto simp: read_csv_names_def Let_def split: if_splits)

lemma read_csv_names_labels:
  "read_csv_names names parsed = Inr df \<Longrightarrow> map fst (df_rows df) = [0..<length parsed]"
  by (auto simp: read_csv_names_def Let_def enumerate_eq_zip split: if_splits)

lemma read_csv_names_widths:
  assumes "read_csv_names names parsed = Inr df" "row \<in> set (df_rows df)"
  shows "length (snd row) = length names"
proof -
  define width where "width = max (length names) (case parsed of [] \<Rightarrow> 0 | r # _ \<Rightarrow> length r)"
  define pad :: "cell list \<Rightarrow> cell list"
    where "pad = (\<lambda>r. drop (width - length names) (r @ replicate (width - length r) NaN))"
  from assms(1)
  have "(if list_ex (\<lambda>r. width < length r) parsed
         then Inl (ValueError ''Error tokenizing data'')
         else Inr \<lparr>df_columns = names,
                   df_object = object_dtypes (length names) (map pad parsed),
                   df_rows = enumerate 0 (map pad parsed)\<rparr>) = Inr df"
    unfolding read_csv_names_def Let_def width_def pad_def .
  then have ok: "\<not> list_ex (\<lambda>r. width < length r) parsed"
    and rows: "df_rows df = enumerate 0 (map pad parsed)"
    by (auto split: if_splits)
  from assms(2) have "snd row \<in> set (map snd (df_rows df))" by simp
  then have "snd row \<in> set (map pad parsed)" by (simp only: rows map_snd_enumerate)
  then obtain r where r: "r \<in> set parsed" and row: "snd row = pad r" by auto
  from ok r have "length r \<le> width" by (auto simp: list_ex_iff)
  moreover have "length names \<le> width" by (simp add: width_def)
  ultimately show ?thesis by (simp add: row pad_def)
qed

lemma load_adult_columns: "load_adult parsed = Inr df \<Longrightarrow> df_columns df = column_names"
  by (auto simp: load_adult_def strip_object_columns_def replace_value_def Let_def
      read_csv_names_columns split: sum.splits)

lemma load_adult_labels:
  "load_adult parsed = Inr df \<Longrightarrow> map fst (df_rows df) = [0..<length parsed]"
  by (auto simp: load_adult_def strip_object_columns_def replace_value_def Let_def
      comp_def case_prod_unfold dest!: read_csv_names_labels split: sum.splits)

lemma load_adult_length: "load_adult parsed = Inr df \<Longrightarrow> length (df_rows df) = length parsed"
  using arg_cong [OF load_adult_labels, of parsed df length] by simp

lemma load_adult_label_at:
  assumes "load_adult parsed = Inr df" "p < length parsed"
  shows "fst (df_rows df ! p) = p"
proof -
  from assms have "fst (df_rows df ! p) = map fst (df_rows df) ! p"
    by (simp add: load_adult_length)
  also have "\<dots> = p" using assms by (simp add: load_adult_labels)
  finally show ?thesis .
qed

lemma load_adult_widths:
  assumes "load_adult parsed = Inr df" "row \<in> set (df_rows df)"
  shows "length (snd row) = length column_names"
proof -
  from assms(1) obtain df0 where df0: "read_csv_names column_names parsed = Inr df0"
    and df: "df = strip_object_columns (replace_value (Str ''?'') NaN df0)"
    by (auto simp: load_adult_def split: sum.splits)
  from assms(2) obtain row0 where "row0 \<in> set (df_rows df0)" "length (snd row) = length (snd row0)"
    by (auto simp: df strip_object_columns_def replace_value_def Let_def)
  with read_csv_names_widths [OF df0] show ?thesis by simp
qed

lemma length_swap [simp]: "length (swap i j x) = length x"
  by (simp add: swap_def)

lemma set_swap_list: "i < length x \<Longrightarrow> j < length x \<Longrightarrow> set (swap i j x) = set x"
  unfolding swap_def by (rule set_swap)

lemma distinct_swap_list:
  "i < length x \<Longrightarrow> j < length x \<Longrightarrow> distinct (swap i j x) = distinct x"
  unfolding swap_def by (rule distinct_swap)

lemma length_shuffle [simp]: "length (shuffle draw i x) = length x"
  by (induction i arbitrary: x) simp_all

lemma shuffle_rearranges:
  "i < length x \<Longrightarrow> set (shuffle draw i x) = set x \<and> distinct (shuffle draw i x) = distinct x"
proof (induction i arbitrary: x)
  case 0
  then show ?case by simp
next
  case (Suc i)
  define j where "j = draw (Suc i) mod Suc (Suc i)"
  have "j < Suc (Suc i)" unfolding j_def by (rule mod_less_divisor) simp
  moreover have "Suc (Suc i) \<le> length x" using Suc.prems by simp
  ultimately have j: "j < length x" by (rule less_le_trans)
  have step: "shuffle draw (Suc i) x = shuffle draw i (swap (Suc i) j x)"
    by (simp only: shuffle.simps j_def)
  from Suc.prems have "i < length (swap (Suc i) j x)" by simp
  from Suc.IH [OF this] show ?case
    by (simp only: step set_swap_list [OF Suc.prems j] distinct_swap_list [OF Suc.prems j])
qed

lemma permutation_rearranges:
  "length (permutation random_interval seed n) = n \<and>
   set (permutation random_interval seed n) = {..<n} \<and>
   distinct (permutation random_interval seed n)"
proof (cases n)
  case 0
  then show ?thesis by (simp add: permutation_def)
next
  case (Suc m)
  then have "n - 1 < length [0..<n]" by simp
  from shuffle_rearranges [OF this, of "random_interval seed n"]
  have "set (permutation random_interval seed n) = set [0..<n]"
    and "distinct (permutation random_interval seed n) = distinct [0..<n]"
    by (simp_all only: permutation_def)
  moreover have "length (permutation random_interval seed n) = n"
    by (simp add: permutation_def)
  ultimately show ?thesis by (simp add: lessThan_atLeast0)
qed

lemma shuffle_split_parts:
  assumes "shuffle_split random_interval n test_size random_state = Inr (ind_train, ind_test)"
  shows "ind_test @ ind_train = permutation random_interval random_state n"
    and "ind_train \<noteq> []"
    and "length ind_test = n_test_of test_size n"
proof -
  define p where "p = permutation random_interval random_state n"
  define n_test where "n_test = n_test_of test_size n"
  from assms have lt: "n_test < n"
    and tr: "ind_train = take (n - n_test) (drop n_test p)" and te: "ind_test = take n_test p"
    by (auto simp: shuffle_split_def Let_def p_def n_test_def split: if_splits)
  have len: "length p = n" by (simp add: p_def permutation_rearranges)
  then have "take (n - n_test) (drop n_test p) = drop n_test p" by simp
  with tr te show "ind_test @ ind_train = permutation random_interval random_state n"
    by (simp add: p_def)
  from lt len show "ind_train \<noteq> []" by (simp add: tr)
  from lt len show "length ind_test = n_test_of test_size n" by (simp add: te n_test_def)
qed

lemma shuffle_split_partition:
  assumes "shuffle_split random_interval n test_size random_state = Inr (ind_train, ind_test)"
  shows "distinct (ind_test @ ind_train)"
    and "set (ind_test @ ind_train) = {..<n}"
    and "length ind_train + length ind_test = n"
proof -
  note p = permutation_rearranges [of random_interval random_state n]
  from shuffle_split_parts(1) [OF assms] p show "distinct (ind_test @ ind_train)" by simp
  from shuffle_split_parts(1) [OF assms] p show "set (ind_test @ ind_train) = {..<n}"
    by (simp only:)
  from arg_cong [OF shuffle_split_parts(1) [OF assms], of length] p
  show "length ind_train + length ind_test = n" by simp
qed

lemma train_test_split_parts:
  assumes "train_test_split random_interval xs test_size random_state = Inr (a, b)"
  obtains ind_train ind_test where
    "shuffle_split random_interval (length xs) test_size random_state = Inr (ind_train, ind_test)"
    "a = map (\<lambda>p. xs ! p) ind_train" "b = map (\<lambda>p. xs ! p) ind_test"
  using assms by (auto simp: train_test_split_def split: sum.splits)

lemma train_test_split_indices:
  assumes "shuffle_split random_interval (length xs) test_size random_state = Inr (ind_train, ind_test)"
  shows "train_test_split random_interval xs test_size random_state =
           Inr (map (\<lambda>p. xs ! p) ind_train, map (\<lambda>p. xs ! p) ind_test)"
  using assms by (simp add: train_test_split_def)

lemma drop_income_defined:
  assumes "df_columns df = column_names"
  shows "\<exists>d. drop_column ''income'' df = Inr d"
  using assms by (simp add: drop_column_def column_names_def)

lemma split_test_parts:
  assumes "split_test random_interval parsed = Inr (df_train_val, df_test, df_no_target)"
  obtains df ind_train ind_test where
    "load_adult parsed = Inr df"
    "shuffle_split random_interval (length parsed) (round_double (1 / 10)) 42 =
       Inr (ind_train, ind_test)"
    "df_train_val = df\<lparr>df_rows := map (\<lambda>p. df_rows df ! p) ind_train\<rparr>"
    "df_test = df\<lparr>df_rows := map (\<lambda>p. df_rows df ! p) ind_test\<rparr>"
    "drop_column ''income'' df_train_val = Inr df_no_target"
proof -
  from assms obtain df train_val_rows test_rows where df: "load_adult parsed = Inr df"
    and split: "train_test_split random_interval (df_rows df) (round_double (1 / 10)) 42 =
      Inr (train_val_rows, test_rows)"
    and frames: "df_train_val = df\<lparr>df_rows := train_val_rows\<rparr>"
      "df_test = df\<lparr>df_rows := test_rows\<rparr>"
    and drop: "drop_column ''income'' (df\<lparr>df_rows := train_val_rows\<rparr>) = Inr df_no_target"
    unfolding split_test_def Let_def by (auto split: sum.splits prod.splits)
  from split obtain ind_train ind_test where
    "shuffle_split random_interval (length (df_rows df)) (round_double (1 / 10)) 42 =
      Inr (ind_train, ind_test)"
    "train_val_rows = map (\<lambda>p. df_rows df ! p) ind_train"
    "test_rows = map (\<lambda>p. df_rows df ! p) ind_test"
    by (rule train_test_split_parts)
  with df frames drop show ?thesis
    by (intro that [of df ind_train ind_test]) (simp_all add: load_adult_length)
qed

lemma split_test_defined:
  assumes "load_adult parsed = Inr df"
    and "shuffle_split random_interval (length parsed) (round_double (1 / 10)) 42 =
       Inr (ind_train, ind_test)"
  shows "\<exists>df_no_target. split_test random_interval parsed =
           Inr (df\<lparr>df_rows := map (\<lambda>p. df_rows df ! p) ind_train\<rparr>,
                df\<lparr>df_rows := map (\<lambda>p. df_rows df ! p) ind_test\<rparr>, df_no_target)"
proof -
  from assms have "train_test_split random_interval (df_rows df) (round_double (1 / 10)) 42 =
      Inr (map (\<lambda>p. df_rows df ! p) ind_train, map (\<lambda>p. df_rows df ! p) ind_test)"
    by (intro train_test_split_indices) (simp add: load_adult_length)
  moreover have "df_columns (df\<lparr>df_rows := map (\<lambda>p. df_rows df ! p) ind_train\<rparr>) = column_names"
    using assms(1) by (simp add: load_adult_columns)
  then obtain d where
    "drop_column ''income'' (df\<lparr>df_rows := map (\<lambda>p. df_rows df ! p) ind_train\<rparr>) = Inr d"
    using drop_income_defined by blast
  ultimately show ?thesis using assms(1) by (simp add: split_test_def)
qed

lemma prepare_data_cases [case_names no_split no_matrix no_validation complete]:
  obtains
    (no_split) e where
      "split_test random_interval parsed = Inl e"
      "prepare_data random_interval fit transform_row label_encode xgb_fit parsed = ([], Inl e)"
  | (no_matrix) df_train_val df_test df_no_target e where
      "split_test random_interval parsed = Inr (df_train_val, df_test, df_no_target)"
      "preprocess_cell fit transform_row label_encode df_train_val df_no_target = Inl e"
      "prepare_data random_interval fit transform_row label_encode xgb_fit parsed =
         ([To_csv ''data/train.csv'' (to_csv df_train_val),
           To_csv ''data/test.csv'' (to_csv df_test)], Inl e)"
  | (no_validation) df_train_val df_test df_no_target fitted X e where
      "split_test random_interval parsed = Inr (df_train_val, df_test, df_no_target)"
      "preprocess_cell fit transform_row label_encode df_train_val df_no_target =
         Inr (fitted, X)"
      "train_test_split random_interval X (round_double (1 / 5)) 42 = Inl e"
      "prepare_data random_interval fit transform_row label_encode xgb_fit parsed =
         ([To_csv ''data/train.csv'' (to_csv df_train_val),
           To_csv ''data/test.csv'' (to_csv df_test),
           Pickle_dump ''script/preprocess.pkl'' fitted], Inl e)"
  | (complete) df_train_val df_test df_no_target fitted X X_train X_val where
      "split_test random_interval parsed = Inr (df_train_val, df_test, df_no_target)"
      "preprocess_cell fit transform_row label_encode df_train_val df_no_target =
         Inr (fitted, X)"
      "train_test_split random_interval X (round_double (1 / 5)) 42 = Inr (X_train, X_val)"
      "prepare_data random_interval fit transform_row label_encode xgb_fit parsed =
         ([To_csv ''data/train.csv'' (to_csv df_train_val),
           To_csv ''data/test.csv'' (to_csv df_test),
           Pickle_dump ''script/preprocess.pkl'' fitted,
           Savetxt ''data/train_transform.csv'' (map (map percent_f) X_train),
           Savetxt ''data/val_transform.csv'' (map (map percent_f) X_val),
           Upload_file ''data/train_transform.csv'' ''sagemaker/DEMO-ModelMonitor/train/train.csv'',
           Upload_file ''data/val_transform.csv''
             ''sagemaker/DEMO-ModelMonitor/validation/validation.csv''],
          Inr \<lparr>train_val_frame = df_train_val, test_frame = df_test, preprocessor = fitted,
               labelled_matrix = X, train_matrix = X_train, val_matrix = X_val,
               xgb_model = xgb_fit (map (map percent_f) X_train) (map (map percent_f) X_val)\<rparr>)"
proof (cases "split_test random_interval parsed")
  case (Inl e)
  then show ?thesis by (intro no_split [of e]) (simp_all add: prepare_data_def)
next
  case s: (Inr s)
  obtain df_train_val df_test df_no_target where s': "s = (df_train_val, df_test, df_no_target)"
    by (cases s) auto
  show ?thesis
  proof (cases "preprocess_cell fit transform_row label_encode df_train_val df_no_target")
    case (Inl e)
    with s s' show ?thesis
      by (intro no_matrix [of df_train_val df_test df_no_target e])
        (simp_all add: prepare_data_def)
  next
    case m: (Inr m)
    obtain fitted X where m': "m = (fitted, X)" by (cases m) auto
    show ?thesis
    proof (cases "train_test_split random_interval X (round_double (1 / 5)) 42")
      case (Inl e)
      with s s' m m' show ?thesis
        by (intro no_validation [of df_train_val df_test df_no_target fitted X e])
          (simp_all add: prepare_data_def)
    next
      case v: (Inr v)
      obtain X_train X_val where "v = (X_train, X_val)" by (cases v) auto
      with s s' m m' v show ?thesis
        by (intro complete [of df_train_val df_test df_no_target fitted X X_train X_val])
          (simp_all add: prepare_data_def)
    qed
  qed
qed

lemma preprocess_cell_parts:
  assumes "preprocess_cell fit transform_row label_encode df df_no_target = Inr (fitted, X)"
  shows "fit (numeric_ind df_no_target) (cat_ind df_no_target) df_no_target = Inr fitted"
    and "insert_first_column (label_encode (column_values ''income'' df))
           (map (\<lambda>(i, r). transform_row fitted r) (df_rows df_no_target)) = Inr X"
  using assms by (auto simp: preprocess_cell_def split: sum.splits)

lemma insert_first_column_rows:
  assumes "insert_first_column y X0 = Inr X"
  shows "length X = length X0" and "p < length X0 \<Longrightarrow> tl (X ! p) = X0 ! p"
proof -
  from assms consider "length y = length X0" "X = map (\<lambda>(v, row). v # row) (zip y X0)"
    | "X = map (\<lambda>row. hd y # row) X0"
    by (auto simp: insert_first_column_def split: if_splits)
  then have "length X = length X0 \<and> (p < length X0 \<longrightarrow> tl (X ! p) = X0 ! p)"
    by cases simp_all
  then show "length X = length X0" and "p < length X0 \<Longrightarrow> tl (X ! p) = X0 ! p" by simp_all
qed

lemma drop_column_rows:
  assumes "drop_column name df = Inr d"
  shows "map fst (df_rows d) = map fst (df_rows df)"
  using assms by (auto simp: drop_column_def split: if_splits)

lemma selected_rows_width:
  assumes "load_adult parsed = Inr df" "\<forall>p \<in> set ps. p < length parsed"
  shows "list_all (\<lambda>r. length r = length column_names) (map (\<lambda>p. snd (df_rows df ! p)) ps)"
proof -
  have "length (snd (df_rows df ! p)) = length column_names" if "p \<in> set ps" for p
  proof -
    from that assms have "df_rows df ! p \<in> set (df_rows df)"
      by (simp add: load_adult_length)
    with assms(1) show ?thesis by (rule load_adult_widths)
  qed
  then show ?thesis by (simp add: list_all_iff)
qed

lemma written_splits:
  assumes "split_test random_interval parsed = Inr (df_train_val, df_test, df_no_target)"
  obtains df ind_train ind_test where
    "load_adult parsed = Inr df"
    "shuffle_split random_interval (length parsed) (round_double (1 / 10)) 42 =
       Inr (ind_train, ind_test)"
    "to_csv df_train_val =
       \<lparr>csv_header = column_names, csv_records = map (\<lambda>p. snd (df_rows df ! p)) ind_train\<rparr>"
    "to_csv df_test =
       \<lparr>csv_header = column_names, csv_records = map (\<lambda>p. snd (df_rows df ! p)) ind_test\<rparr>"
proof -
  from assms obtain df ind_train ind_test where df: "load_adult parsed = Inr df"
    and ind: "shuffle_split random_interval (length parsed) (round_double (1 / 10)) 42 =
       Inr (ind_train, ind_test)"
    and frames: "df_train_val = df\<lparr>df_rows := map (\<lambda>p. df_rows df ! p) ind_train\<rparr>"
      "df_test = df\<lparr>df_rows := map (\<lambda>p. df_rows df ! p) ind_test\<rparr>"
    by (rule split_test_parts)
  from df frames have
    "to_csv df_train_val =
       \<lparr>csv_header = column_names, csv_records = map (\<lambda>p. snd (df_rows df ! p)) ind_train\<rparr>"
    "to_csv df_test =
       \<lparr>csv_header = column_names, csv_records = map (\<lambda>p. snd (df_rows df ! p)) ind_test\<rparr>"
    by (simp_all add: to_csv_def load_adult_columns comp_def)
  with df ind show ?thesis by (rule that)
qed

lemma prepare_data_written [case_names unwritten splits]:
  obtains
    (unwritten) e where
      "split_test random_interval parsed = Inl e"
      "fst (prepare_data random_interval fit transform_row label_encode xgb_fit parsed) = []"
  | (splits) df_train_val df_test df_no_target rest where
      "split_test random_interval parsed = Inr (df_train_val, df_test, df_no_target)"
      "fst (prepare_data random_interval fit transform_row label_encode xgb_fit parsed) =
         To_csv ''data/train.csv'' (to_csv df_train_val) #
         To_csv ''data/test.csv'' (to_csv df_test) # rest"
      "\<forall>path f. To_csv path f \<notin> set rest"
proof (cases rule: prepare_data_cases
    [of random_interval parsed fit transform_row label_encode xgb_fit])
  case (no_split e)
  show ?thesis by (rule unwritten [of e]) (use no_split in simp_all)
next
  case (no_matrix df_train_val df_test df_no_target e)
  show ?thesis
    by (rule splits [of df_train_val df_test df_no_target "[]"]) (use no_matrix in simp_all)
next
  case (no_validation df_train_val df_test df_no_target fitted X e)
  show ?thesis
    by (rule splits [of df_train_val df_test df_no_target
          "[Pickle_dump ''script/preprocess.pkl'' fitted]"]) (use no_validation in simp_all)
next
  case (complete df_train_val df_test df_no_target fitted X X_train X_val)
  show ?thesis
    by (rule splits [of df_train_val df_test df_no_target
          "[Pickle_dump ''script/preprocess.pkl'' fitted,
            Savetxt ''data/train_transform.csv'' (map (map percent_f) X_train),
            Savetxt ''data/val_transform.csv'' (map (map percent_f) X_val),
            Upload_file ''data/train_transform.csv'' ''sagemaker/DEMO-ModelMonitor/train/train.csv'',
            Upload_file ''data/val_transform.csv''
              ''sagemaker/DEMO-ModelMonitor/validation/validation.csv'']"])
      (use complete in simp_all)
qed

text \<open>
  Claim C5. The schema has fifteen column names. Whatever the notebook writes with
  \<open>to_csv\<close>, however far the run gets, is \<open>data/train.csv\<close> or \<open>data/test.csv\<close>, starts
  with the header of exactly these names, in order, and has as many fields in every record
  as in the header. As soon as the file is loaded and the first split is made, both files
  are written, before anything else, with that header and with the loaded rows that the
  split selected for them as their records, in the order of the selection.
\<close>

theorem written_splits_have_header:
  "length column_names = 15 \<and>
   (To_csv path f \<in>
      set (fst (prepare_data random_interval fit transform_row label_encode xgb_fit parsed)) \<longrightarrow>
      (path = ''data/train.csv'' \<or> path = ''data/test.csv'') \<and>
      csv_header f = column_names \<and>
      list_all (\<lambda>r. length r = length (csv_header f)) (csv_records f)) \<and>
   (load_adult parsed = Inr df \<and>
    shuffle_split random_interval (length parsed) (round_double (1 / 10)) 42 =
      Inr (ind_train, ind_test) \<longrightarrow>
      take 2 (fst (prepare_data random_interval fit transform_row label_encode xgb_fit parsed)) =
        [To_csv ''data/train.csv''
           \<lparr>csv_header = column_names,
              csv_records = map (\<lambda>p. snd (df_rows df ! p)) ind_train\<rparr>,
         To_csv ''data/test.csv''
           \<lparr>csv_header = column_names,
              csv_records = map (\<lambda>p. snd (df_rows df ! p)) ind_test\<rparr>])"
proof (cases rule: prepare_data_written
    [of random_interval parsed fit transform_row label_encode xgb_fit])
  case (unwritten e)
  have "\<not> (load_adult parsed = Inr df \<and>
      shuffle_split random_interval (length parsed) (round_double (1 / 10)) 42 =
        Inr (ind_train, ind_test))"
    using split_test_defined [of parsed df random_interval ind_train ind_test] unwritten(1)
    by auto
  with unwritten(2) column_names_length show ?thesis by simp
next
  case (splits df_train_val df_test df_no_target rest)
  from splits(1) obtain df' ind_train' ind_test' where df: "load_adult parsed = Inr df'"
    and ind: "shuffle_split random_interval (length parsed) (round_double (1 / 10)) 42 =
      Inr (ind_train', ind_test')"
    and csv: "to_csv df_train_val =
      \<lparr>csv_header = column_names, csv_records = map (\<lambda>p. snd (df_rows df' ! p)) ind_train'\<rparr>"
      "to_csv df_test =
      \<lparr>csv_header = column_names, csv_records = map (\<lambda>p. snd (df_rows df' ! p)) ind_test'\<rparr>"
    by (rule written_splits)
  from shuffle_split_partition(2) [OF ind]
  have "\<forall>p \<in> set ind_train'. p < length parsed" "\<forall>p \<in> set ind_test'. p < length parsed"
    by auto
  from this [THEN selected_rows_width [OF df]] df ind csv splits(2,3) column_names_length
  show ?thesis by auto
qed

text \<open>
  Claim C4. When the notebook has run through, the rows of the dataset behind the three
  partitions are those at the positions that the two splits selected: the test partition
  is the loaded rows at \<open>ind_test\<close>, \<open>df_train_val\<close> is the loaded rows at
  \<open>ind_train_val\<close>, each row carrying its number in the file as its label; row \<open>p\<close> of
  the matrix is made from row \<open>p\<close> of \<open>df_train_val\<close>; and the training and validation
  partitions are the rows of the matrix at \<open>ind_train\<close> and \<open>ind_val\<close>. No row of the
  dataset is behind two rows of the three partitions, and every row is behind one.
\<close>

theorem partitions_pairwise_disjoint:
  assumes "snd (prepare_data random_interval fit transform_row label_encode xgb_fit parsed) =
             Inr a"
  shows "\<exists>df df_no_target ind_train_val ind_test ind_train ind_val.
           load_adult parsed = Inr df \<and>
           shuffle_split random_interval (length parsed) (round_double (1 / 10)) 42 =
             Inr (ind_train_val, ind_test) \<and>
           shuffle_split random_interval (length ind_train_val) (round_double (1 / 5)) 42 =
             Inr (ind_train, ind_val) \<and>
           df_rows (test_frame a) = map (\<lambda>i. df_rows df ! i) ind_test \<and>
           df_rows (train_val_frame a) = map (\<lambda>i. df_rows df ! i) ind_train_val \<and>
           map fst (df_rows (test_frame a)) = ind_test \<and>
           map fst (df_rows (train_val_frame a)) = ind_train_val \<and>
           drop_column ''income'' (train_val_frame a) = Inr df_no_target \<and>
           map fst (df_rows df_no_target) = ind_train_val \<and>
           length (labelled_matrix a) = length ind_train_val \<and>
           (\<forall>p<length ind_train_val.
              tl (labelled_matrix a ! p) =
                transform_row (preprocessor a) (snd (df_rows df_no_target ! p))) \<and>
           train_matrix a = map (\<lambda>p. labelled_matrix a ! p) ind_train \<and>
           val_matrix a = map (\<lambda>p. labelled_matrix a ! p) ind_val \<and>
           distinct (ind_test @ map (\<lambda>p. ind_train_val ! p) ind_train @
                     map (\<lambda>p. ind_train_val ! p) ind_val) \<and>
           set (ind_test @ map (\<lambda>p. ind_train_val ! p) ind_train @
                map (\<lambda>p. ind_train_val ! p) ind_val) = {..<length parsed}"
proof (cases rule: prepare_data_cases
    [of random_interval parsed fit transform_row label_encode xgb_fit])
  case (complete df_train_val df_test df_no_target fitted X X_train X_val)
  with assms have a: "a = \<lparr>train_val_frame = df_train_val, test_frame = df_test,
      preprocessor = fitted, labelled_matrix = X, train_matrix = X_train, val_matrix = X_val,
      xgb_model = xgb_fit (map (map percent_f) X_train) (map (map percent_f) X_val)\<rparr>"
    by simp
  from complete(1) obtain df ind_train_val ind_test where df: "load_adult parsed = Inr df"
    and ind1: "shuffle_split random_interval (length parsed) (round_double (1 / 10)) 42 =
       Inr (ind_train_val, ind_test)"
    and frames: "df_train_val = df\<lparr>df_rows := map (\<lambda>p. df_rows df ! p) ind_train_val\<rparr>"
      "df_test = df\<lparr>df_rows := map (\<lambda>p. df_rows df ! p) ind_test\<rparr>"
    and drop: "drop_column ''income'' df_train_val = Inr df_no_target"
    by (rule split_test_parts)
  note part1 = shuffle_split_partition [OF ind1]
  have in1: "\<forall>p \<in> set ind_train_val. p < length parsed" "\<forall>p \<in> set ind_test. p < length parsed"
    using part1(2) by auto
  have labels: "map (\<lambda>p. fst (df_rows df ! p)) ps = ps" if "\<forall>p \<in> set ps. p < length parsed" for ps
    using that load_adult_label_at [OF df] by (simp add: map_idI)
  have tv_labels: "map fst (df_rows df_train_val) = ind_train_val"
    and te_labels: "map fst (df_rows df_test) = ind_test"
    using labels [OF in1(1)] labels [OF in1(2)] by (simp_all add: frames comp_def)
  have nt_labels: "map fst (df_rows df_no_target) = ind_train_val"
    using drop_column_rows [OF drop] tv_labels by simp
  have nt_len: "length (df_rows df_no_target) = length ind_train_val"
    using arg_cong [OF nt_labels, of length] by simp
  note X = preprocess_cell_parts(2) [OF complete(2)]
  have X_len: "length X = length ind_train_val"
    using insert_first_column_rows(1) [OF X] nt_len by simp
  have X_rows: "tl (X ! p) = transform_row fitted (snd (df_rows df_no_target ! p))"
    if "p < length ind_train_val" for p
    using insert_first_column_rows(2) [OF X, of p] that nt_len
    by (simp add: case_prod_unfold)
  from complete(3) obtain ind_train ind_val where
    ind2: "shuffle_split random_interval (length X) (round_double (1 / 5)) 42 =
       Inr (ind_train, ind_val)"
    and parts: "X_train = map (\<lambda>p. X ! p) ind_train" "X_val = map (\<lambda>p. X ! p) ind_val"
    by (rule train_test_split_parts)
  note part2 = shuffle_split_partition [OF ind2]
  have d1: "distinct ind_test" "distinct ind_train_val" "set ind_test \<inter> set ind_train_val = {}"
    using part1(1) by auto
  have below: "\<forall>p \<in> set (ind_val @ ind_train). p < length ind_train_val"
    using part2(2) by (auto simp: X_len)
  then have "inj_on (\<lambda>p. ind_train_val ! p) (set (ind_val @ ind_train))"
    using d1(2) by (auto simp: inj_on_def nth_eq_iff_index_eq)
  with part2(1) have d2: "distinct (map (\<lambda>p. ind_train_val ! p) (ind_val @ ind_train))"
    by (simp only: distinct_map)
  have image: "set (map (\<lambda>p. ind_train_val ! p) (ind_val @ ind_train)) = set ind_train_val"
  proof -
    have "set (map (\<lambda>p. ind_train_val ! p) (ind_val @ ind_train)) =
        (\<lambda>p. ind_train_val ! p) ` {..<length ind_train_val}"
      using part2(2) by (simp only: set_map X_len)
    also have "\<dots> = set ind_train_val"
      by (auto simp: set_conv_nth)
    finally show ?thesis .
  qed
  have dist: "distinct (ind_test @ map (\<lambda>p. ind_train_val ! p) ind_train @
      map (\<lambda>p. ind_train_val ! p) ind_val)"
    using d1 d2 image by auto
  have cover: "set (ind_test @ map (\<lambda>p. ind_train_val ! p) ind_train @
      map (\<lambda>p. ind_train_val ! p) ind_val) = {..<length parsed}"
    using image part1(2) by auto
  show ?thesis
    apply (rule exI [of _ df], rule exI [of _ df_no_target], rule exI [of _ ind_train_val],
        rule exI [of _ ind_test], rule exI [of _ ind_train], rule exI [of _ ind_val])
    apply (intro conjI allI impI)
    using df ind1 ind2 frames tv_labels te_labels drop nt_labels X_len X_rows parts dist cover
    by (simp_all add: a)
qed (use assms in simp_all)

text \<open>
  Claim C3, amended. The notebook loads the CSV, splits off the test partition from the
  loaded data, writes both parts as they are, fits the imputing and encoding transformer on
  the remaining rows without their target and transforms them, puts the encoded target in
  front, splits the resulting matrix into training and validation partitions, and fits the
  model on these two. The two files written first do not depend on the transformer, the
  label encoder or the model, nor on whether the run gets beyond them.
\<close>

theorem test_split_precedes_imputation:
  assumes "prepare_data random_interval fit transform_row label_encode xgb_fit parsed =
             (written, Inr a)"
  shows "(\<exists>df. load_adult parsed = Inr df \<and>
               train_test_split random_interval (df_rows df) (round_double (1 / 10)) 42 =
                 Inr (df_rows (train_val_frame a), df_rows (test_frame a))) \<and>
         (\<exists>d. drop_column ''income'' (train_val_frame a) = Inr d \<and>
              fit (numeric_ind d) (cat_ind d) d = Inr (preprocessor a) \<and>
              insert_first_column (label_encode (column_values ''income'' (train_val_frame a)))
                (map (\<lambda>(i, r). transform_row (preprocessor a) r) (df_rows d)) =
                Inr (labelled_matrix a)) \<and>
         train_test_split random_interval (labelled_matrix a) (round_double (1 / 5)) 42 =
           Inr (train_matrix a, val_matrix a) \<and>
         xgb_model a = xgb_fit (map (map percent_f) (train_matrix a))
                         (map (map percent_f) (val_matrix a)) \<and>
         written =
           [To_csv ''data/train.csv'' (to_csv (train_val_frame a)),
            To_csv ''data/test.csv'' (to_csv (test_frame a)),
            Pickle_dump ''script/preprocess.pkl'' (preprocessor a),
            Savetxt ''data/train_transform.csv'' (map (map percent_f) (train_matrix a)),
            Savetxt ''data/val_transform.csv'' (map (map percent_f) (val_matrix a)),
            Upload_file ''data/train_transform.csv'' ''sagemaker/DEMO-ModelMonitor/train/train.csv'',
            Upload_file ''data/val_transform.csv''
              ''sagemaker/DEMO-ModelMonitor/validation/validation.csv''] \<and>
         take 2 (fst (prepare_data random_interval fit' transform_row' label_encode' xgb_fit'
                        parsed)) = take 2 written"
proof (cases rule: prepare_data_cases
    [of random_interval parsed fit transform_row label_encode xgb_fit])
  case (complete df_train_val df_test df_no_target fitted X X_train X_val)
  with assms have a: "a = \<lparr>train_val_frame = df_train_val, test_frame = df_test,
      preprocessor = fitted, labelled_matrix = X, train_matrix = X_train, val_matrix = X_val,
      xgb_model = xgb_fit (map (map percent_f) X_train) (map (map percent_f) X_val)\<rparr>"
    and w: "written =
      [To_csv ''data/train.csv'' (to_csv df_train_val), To_csv ''data/test.csv'' (to_csv df_test),
       Pickle_dump ''script/preprocess.pkl'' fitted,
       Savetxt ''data/train_transform.csv'' (map (map percent_f) X_train),
       Savetxt ''data/val_transform.csv'' (map (map percent_f) X_val),
       Upload_file ''data/train_transform.csv'' ''sagemaker/DEMO-ModelMonitor/train/train.csv'',
       Upload_file ''data/val_transform.csv''
         ''sagemaker/DEMO-ModelMonitor/validation/validation.csv'']"
    by simp_all
  from complete(1) obtain df ind_train_val ind_test where df: "load_adult parsed = Inr df"
    and ind1: "shuffle_split random_interval (length parsed) (round_double (1 / 10)) 42 =
       Inr (ind_train_val, ind_test)"
    and frames: "df_train_val = df\<lparr>df_rows := map (\<lambda>p. df_rows df ! p) ind_train_val\<rparr>"
      "df_test = df\<lparr>df_rows := map (\<lambda>p. df_rows df ! p) ind_test\<rparr>"
    and drop: "drop_column ''income'' df_train_val = Inr df_no_target"
    by (rule split_test_parts)
  have "train_test_split random_interval (df_rows df) (round_double (1 / 10)) 42 =
      Inr (df_rows df_train_val, df_rows df_test)"
    using ind1 df by (simp add: train_test_split_def load_adult_length frames)
  with df have first: "\<exists>df. load_adult parsed = Inr df \<and>
      train_test_split random_interval (df_rows df) (round_double (1 / 10)) 42 =
        Inr (df_rows (train_val_frame a), df_rows (test_frame a))"
    by (auto simp: a)
  from drop preprocess_cell_parts [OF complete(2)]
  have matrix: "\<exists>d. drop_column ''income'' (train_val_frame a) = Inr d \<and>
      fit (numeric_ind d) (cat_ind d) d = Inr (preprocessor a) \<and>
      insert_first_column (label_encode (column_values ''income'' (train_val_frame a)))
        (map (\<lambda>(i, r). transform_row (preprocessor a) r) (df_rows d)) = Inr (labelled_matrix a)"
    by (auto simp: a)
  have same: "take 2 (fst (prepare_data random_interval fit' transform_row' label_encode' xgb_fit'
      parsed)) = take 2 written"
  proof (cases rule: prepare_data_written
      [of random_interval parsed fit' transform_row' label_encode' xgb_fit'])
    case (unwritten e)
    with complete(1) show ?thesis by simp
  next
    case (splits df_train_val' df_test' df_no_target' rest)
    with complete(1) show ?thesis by (simp add: w)
  qed
  from first matrix complete(3) same show ?thesis by (simp add: a w)
qed (use assms in simp_all)

lemma test_size_tenth:
  "1 / 20 \<le> round_double (1 / 10)" "round_double (1 / 10) \<le> 1 / 4"
  using round_double_upper [of "1 / 10" "- 3"] by (simp_all add: pow2_def)

lemma test_size_fifth:
  "1 / 20 \<le> round_double (1 / 5)" "round_double (1 / 5) \<le> 1 / 4"
  using round_double_upper [of "1 / 5" "- 2"] by (simp_all add: pow2_def)

lemma round_double_of_nat:
  assumes "n < 2 ^ 53"
  shows "round_double (of_nat n) = of_nat n"
proof -
  from assms have "int n < int (2 ^ 53)" by (simp only: of_nat_less_iff)
  then have "\<bar>int n\<bar> < 2 ^ 53" by simp
  from round_double_of_int [OF this] show ?thesis by simp
qed

lemma n_test_of_one:
  assumes "1 / 20 \<le> test_size" "test_size \<le> 1 / 4" "1 \<le> n" "n \<le> 3"
  shows "n_test_of test_size n = 1"
proof -
  define k :: rat where "k = of_nat n"
  define b where "b = test_size * k"
  have k: "1 \<le> k" "k \<le> 3" using assms(3,4) by (simp_all add: k_def)
  have "test_size * 1 \<le> b" unfolding b_def using assms(1) k(1) by (intro mult_left_mono) simp_all
  moreover have "b \<le> test_size * 3" unfolding b_def using assms(1) k(2) by (intro mult_left_mono) simp_all
  ultimately have b: "1 / 20 \<le> b" "b \<le> 3 / 4" using assms(1,2) by linarith+
  then have "0 < b" "b < pow2 0" by (simp_all add: pow2_def)
  from round_double_upper [OF this] b
  have "0 < round_double b" "round_double b \<le> 1" by (simp_all add: pow2_def)
  then have "\<lceil>round_double b\<rceil> = 1" by (intro ceiling_unique) simp_all
  moreover have "round_double (of_nat n) = of_nat n"
    using assms(4) by (intro round_double_of_nat) simp
  ultimately show ?thesis by (simp add: n_test_of_def b_def k_def)
qed

lemma small_sample_converts:
  assumes "n \<le> 3"
  shows "\<not> max_double < round_double (of_nat n)"
proof -
  have "round_double (of_nat n) = of_nat n" using assms by (intro round_double_of_nat) simp
  moreover have "(of_nat n :: rat) \<le> 3" using assms by simp
  moreover have "3 \<le> max_double" by (simp add: max_double_def)
  ultimately show ?thesis by simp
qed

lemma shuffle_split_small:
  assumes "1 / 20 \<le> test_size" "test_size \<le> 1 / 4" "2 \<le> n" "n \<le> 3"
  shows "shuffle_split random_interval n test_size random_state =
           Inr (drop 1 (permutation random_interval random_state n),
                take 1 (permutation random_interval random_state n))"
proof -
  have "n_test_of test_size n = 1" using assms by (intro n_test_of_one) simp_all
  moreover have "length (permutation random_interval random_state n) = n"
    by (simp add: permutation_rearranges)
  moreover note small_sample_converts [OF assms(4)]
  ultimately show ?thesis using assms by (simp add: shuffle_split_def Let_def)
qed

lemma shuffle_split_single:
  assumes "1 / 20 \<le> test_size" "test_size \<le> 1 / 4"
  shows "shuffle_split random_interval 1 test_size random_state =
           Inl (ValueError ''the resulting train set will be empty'')"
proof -
  have "n_test_of test_size 1 = 1" using assms by (intro n_test_of_one) simp_all
  moreover have "\<not> max_double < round_double (of_nat 1)" by (rule small_sample_converts) simp
  ultimately show ?thesis using assms by (simp add: shuffle_split_def)
qed

lemma permutation_42_3: "permutation mt19937 42 3 = [0, 1, 2]"
proof -
  have "[0..<3] = [0, 1, 2::nat]" by (simp add: upt_rec)
  moreover have "(3::nat) - 1 = Suc (Suc 0)" by simp
  moreover have "shuffle (mt19937 42 3) (Suc (Suc 0)) [0, 1, 2] = [0, 1, 2::nat]"
    by (simp add: swap_def mt19937_def)
  ultimately show ?thesis by (simp only: permutation_def)
qed

lemma permutation_42_2: "permutation mt19937 42 2 = [1, 0]"
proof -
  have "[0..<2] = [0, 1::nat]" by (simp add: upt_rec)
  moreover have "(2::nat) - 1 = Suc 0" by simp
  moreover have "shuffle (mt19937 42 2) (Suc 0) [0, 1] = [1, 0::nat]"
    by (simp add: swap_def mt19937_def)
  ultimately show ?thesis by (simp only: permutation_def)
qed

lemma first_split_of_three:
  "shuffle_split mt19937 3 (round_double (1 / 10)) 42 = Inr ([1, 2], [0])"
  using shuffle_split_small [OF test_size_tenth, of 3 mt19937 42] by (simp add: permutation_42_3)

lemma second_split_of_two:
  "shuffle_split mt19937 2 (round_double (1 / 5)) 42 = Inr ([0], [1])"
  using shuffle_split_small [OF test_size_fifth, of 2 mt19937 42] by (simp add: permutation_42_2)

lemma n_test_of_zero: "n_test_of test_size 0 = 0"
  by (simp add: n_test_of_def round_double_def)

lemma shuffle_split_none:
  "\<exists>e. shuffle_split random_interval 0 test_size random_state = Inl e"
  by (simp add: shuffle_split_def n_test_of_zero)

lemma short_file_raises:
  assumes "length parsed \<le> 2"
  shows "\<exists>e. snd (prepare_data random_interval fit transform_row label_encode xgb_fit parsed) =
           Inl e"
proof (cases rule: prepare_data_cases
    [of random_interval parsed fit transform_row label_encode xgb_fit])
  case (complete df_train_val df_test df_no_target fitted X X_train X_val)
  from complete(1) obtain df ind_train_val ind_test where
    ind1: "shuffle_split random_interval (length parsed) (round_double (1 / 10)) 42 =
       Inr (ind_train_val, ind_test)"
    and frames: "df_train_val = df\<lparr>df_rows := map (\<lambda>p. df_rows df ! p) ind_train_val\<rparr>"
    and drop: "drop_column ''income'' df_train_val = Inr df_no_target"
    by (rule split_test_parts)
  from ind1 shuffle_split_none [of random_interval "round_double (1 / 10)" 42]
  have "length parsed \<noteq> 0" by auto
  then have "1 \<le> length parsed" by (cases parsed) simp_all
  moreover from assms have "length parsed \<le> 3" by simp
  ultimately have n: "1 \<le> length parsed" "length parsed \<le> 3" .
  from shuffle_split_parts(3) [OF ind1] n_test_of_one [OF test_size_tenth n]
  have "length ind_test = 1" by simp
  with shuffle_split_partition(3) [OF ind1] assms have "length ind_train_val \<le> 1" by linarith
  moreover from shuffle_split_parts(2) [OF ind1] have "length ind_train_val \<noteq> 0" by simp
  ultimately have "length ind_train_val = 1" by linarith
  moreover have "length (df_rows df_no_target) = length (df_rows df_train_val)"
    using arg_cong [OF drop_column_rows [OF drop], of length] by simp
  moreover note insert_first_column_rows(1) [OF preprocess_cell_parts(2) [OF complete(2)]]
  ultimately have "length X = 1" by (simp add: frames)
  with complete(3) shuffle_split_single [OF test_size_fifth, of random_interval 42]
  show ?thesis by (simp add: train_test_split_def)
qed simp_all

lemma adult_sample_loaded:
  "load_adult adult_sample = Inr (adult_frame [(0, adult_row_0), (1, adult_row_1), (2, adult_row_2)])"
  by (simp add: load_adult_def strip_object_columns_def replace_value_def read_csv_names_def
      object_dtypes_def adult_sample_def adult_sample_object_def column_names_def is_object_def
      holds_string_def str_replace_char_def enumerate_eq_zip upt_rec adult_frame_def
      adult_row_0_def adult_row_1_def adult_row_2_def)

lemma split_three_rows:
  "train_test_split mt19937 [x0, x1, x2] (round_double (1 / 10)) 42 = Inr ([x1, x2], [x0])"
proof -
  have "length [x0, x1, x2] = 3" by simp
  then show ?thesis unfolding train_test_split_def by (simp only: first_split_of_three) simp
qed

lemma split_two_rows:
  "train_test_split mt19937 [x0, x1] (round_double (1 / 5)) 42 = Inr ([x0], [x1])"
proof -
  have "length [x0, x1] = 2" by simp
  then show ?thesis unfolding train_test_split_def by (simp only: second_split_of_two) simp
qed

lemma adult_sample_no_target:
  "drop_column ''income'' (adult_frame rows) =
     Inr \<lparr>df_columns = butlast column_names, df_object = butlast adult_sample_object,
          df_rows = map (\<lambda>(i, r). (i, map snd (filter (\<lambda>(n, c). n \<noteq> ''income'')
                                                (zip column_names r)))) rows\<rparr>"
  by (simp add: drop_column_def adult_frame_def column_names_def adult_sample_object_def)

lemma adult_row_1_no_target:
  "map snd (filter (\<lambda>(n, c). n \<noteq> ''income'') (zip column_names adult_row_1)) = butlast adult_row_1"
  by (simp add: column_names_def adult_row_1_def)

lemma adult_row_2_no_target:
  "map snd (filter (\<lambda>(n, c). n \<noteq> ''income'') (zip column_names adult_row_2)) = butlast adult_row_2"
  by (simp add: column_names_def adult_row_2_def)

lemma adult_row_0_no_target:
  "map snd (filter (\<lambda>(n, c). n \<noteq> ''income'') (zip column_names adult_row_0)) = butlast adult_row_0"
  by (simp add: column_names_def adult_row_0_def)

lemma adult_sample_split_test:
  "split_test mt19937 adult_sample =
     Inr (adult_frame [(1, adult_row_1), (2, adult_row_2)], adult_frame [(0, adult_row_0)],
          \<lparr>df_columns = butlast column_names, df_object = butlast adult_sample_object,
            df_rows = [(1, butlast adult_row_1), (2, butlast adult_row_2)]\<rparr>)"
proof -
  have frames: "adult_frame rows\<lparr>df_rows := rows'\<rparr> = adult_frame rows'" for rows rows'
    by (simp add: adult_frame_def)
  have rows: "df_rows (adult_frame rows) = rows" for rows by (simp add: adult_frame_def)
  show ?thesis
    unfolding split_test_def adult_sample_loaded Let_def
    by (simp only: sum.case prod.case rows split_three_rows frames adult_sample_no_target
        list.map adult_row_1_no_target adult_row_2_no_target)
qed

lemma adult_sample_income:
  "column_values ''income'' (adult_frame [(1, adult_row_1), (2, adult_row_2)]) =
     [Str ''>50K'', Str ''<=50K'']"
  "column_values ''income'' (adult_frame [(0, adult_row_0), (1, adult_row_1), (2, adult_row_2)]) =
     [Str ''<=50K'', Str ''>50K'', Str ''<=50K'']"
  by (simp_all add: column_values_def adult_frame_def column_names_def
      adult_row_0_def adult_row_1_def adult_row_2_def)

lemma adult_sample_features:
  "1 # fill_with_count 2 (butlast adult_row_1) = adult_features_1"
  "0 # fill_with_count 2 (butlast adult_row_2) = adult_features_2"
  "1 # fill_with_count 3 (butlast adult_row_1) = adult_features_1"
  "0 # fill_with_count 3 (butlast adult_row_2) = adult_features_2"
  "0 # fill_with_count 3 (butlast adult_row_0) = adult_features_0"
  by (simp_all add: fill_with_count_def adult_row_0_def adult_row_1_def adult_row_2_def
      adult_features_0_def adult_features_1_def adult_features_2_def)

lemma insert_two_labels: "insert_first_column [v0, v1] [r0, r1] = Inr [v0 # r0, v1 # r1]"
  by (simp add: insert_first_column_def)

lemma insert_three_labels:
  "insert_first_column [v0, v1, v2] [r0, r1, r2] = Inr [v0 # r0, v1 # r1, v2 # r2]"
  by (simp add: insert_first_column_def)

lemma over_50k_sample:
  "over_50k [Str ''>50K'', Str ''<=50K''] = [1, 0]"
  "over_50k [Str ''<=50K'', Str ''>50K'', Str ''<=50K''] = [0, 1, 0]"
  by (simp_all add: over_50k_def)

lemma adult_sample_matrix:
  "preprocess_cell fit_count fill_with_count over_50k
     (adult_frame [(1, adult_row_1), (2, adult_row_2)])
     \<lparr>df_columns = cs, df_object = os,
       df_rows = [(1, butlast adult_row_1), (2, butlast adult_row_2)]\<rparr> =
   Inr (2, [adult_features_1, adult_features_2])"
proof -
  have fit: "fit_count num cat \<lparr>df_columns = cs, df_object = os,
       df_rows = [(1, butlast adult_row_1), (2, butlast adult_row_2)]\<rparr> = Inr 2" for num cat
    by (simp add: fit_count_def)
  show ?thesis
    unfolding preprocess_cell_def
    by (simp only: fit sum.case dataframe.select_convs adult_sample_income over_50k_sample
        list.map prod.case insert_two_labels adult_sample_features)
qed

lemma adult_sample_matrix_all:
  "preprocess_cell fit_count fill_with_count over_50k
     (adult_frame [(0, adult_row_0), (1, adult_row_1), (2, adult_row_2)])
     \<lparr>df_columns = cs, df_object = os,
       df_rows = [(0, butlast adult_row_0), (1, butlast adult_row_1), (2, butlast adult_row_2)]\<rparr> =
   Inr (3, [adult_features_0, adult_features_1, adult_features_2])"
proof -
  have fit: "fit_count num cat \<lparr>df_columns = cs, df_object = os,
       df_rows = [(0, butlast adult_row_0), (1, butlast adult_row_1), (2, butlast adult_row_2)]\<rparr> =
       Inr 3" for num cat
    by (simp add: fit_count_def)
  show ?thesis
    unfolding preprocess_cell_def
    by (simp only: fit sum.case dataframe.select_convs adult_sample_income over_50k_sample
        list.map prod.case insert_three_labels adult_sample_features)
qed

lemma percent_f_of_int: "percent_f (of_int n) = of_int n"
proof -
  have "round_half_even (of_int n * 1000000) = n * 1000000"
    using round_half_even_of_int [of "n * 1000000"] by simp
  then show ?thesis by (simp add: percent_f_def)
qed

lemma adult_features_printed:
  "map percent_f adult_features_1 = adult_features_1"
  "map percent_f adult_features_2 = adult_features_2"
proof -
  have "map percent_f (map of_int ns) = map of_int ns" for ns
    by (induction ns) (simp_all add: percent_f_of_int)
  from this [of "[1, 50, 16, 83311, 9, 13, 18, 15, 7, 5, 4, 0, 0, 13, 13]"]
    this [of "[0, 38, 7, 215646, 7, 9, 8, 17, 13, 5, 4, 0, 0, 40, 13]"]
  show "map percent_f adult_features_1 = adult_features_1"
    "map percent_f adult_features_2 = adult_features_2"
    by (simp_all add: adult_features_1_def adult_features_2_def)
qed

lemma adult_sample_run:
  "prepare_data mt19937 fit_count fill_with_count over_50k input_sizes adult_sample =
     ([To_csv ''data/train.csv''
         \<lparr>csv_header = column_names, csv_records = [adult_row_1, adult_row_2]\<rparr>,
       To_csv ''data/test.csv'' \<lparr>csv_header = column_names, csv_records = [adult_row_0]\<rparr>,
       Pickle_dump ''script/preprocess.pkl'' 2,
       Savetxt ''data/train_transform.csv'' [adult_features_1],
       Savetxt ''data/val_transform.csv'' [adult_features_2],
       Upload_file ''data/train_transform.csv'' ''sagemaker/DEMO-ModelMonitor/train/train.csv'',
       Upload_file ''data/val_transform.csv''
         ''sagemaker/DEMO-ModelMonitor/validation/validation.csv''],
      Inr \<lparr>train_val_frame = adult_frame [(1, adult_row_1), (2, adult_row_2)],
           test_frame = adult_frame [(0, adult_row_0)],
           preprocessor = 2,
           labelled_matrix = [adult_features_1, adult_features_2],
           train_matrix = [adult_features_1],
           val_matrix = [adult_features_2],
           xgb_model = (1, 1)\<rparr>)"
proof -
  have csv: "to_csv (adult_frame rows) = \<lparr>csv_header = column_names, csv_records = map snd rows\<rparr>"
    for rows by (simp add: to_csv_def adult_frame_def)
  show ?thesis
    unfolding prepare_data_def adult_sample_split_test Let_def
    by (simp only: sum.case prod.case adult_sample_matrix split_two_rows csv)
      (simp add: adult_features_printed input_sizes_def)
qed

lemma adult_sample_run_refused:
  "prepare_data mt19937 fit_refused fill_with_count over_50k input_sizes adult_sample =
     ([To_csv ''data/train.csv''
         \<lparr>csv_header = column_names, csv_records = [adult_row_1, adult_row_2]\<rparr>,
       To_csv ''data/test.csv'' \<lparr>csv_header = column_names, csv_records = [adult_row_0]\<rparr>],
      Inl (ValueError ''Cannot use mean strategy with non-numeric data''))"
proof -
  have csv: "to_csv (adult_frame rows) = \<lparr>csv_header = column_names, csv_records = map snd rows\<rparr>"
    for rows by (simp add: to_csv_def adult_frame_def)
  have "preprocess_cell fit_refused fill_with_count over_50k df d =
      Inl (ValueError ''Cannot use mean strategy with non-numeric data'')" for df d
    by (simp add: preprocess_cell_def fit_refused_def)
  then show ?thesis
    unfolding prepare_data_def adult_sample_split_test Let_def
    by (simp only: sum.case prod.case csv) simp
qed

lemma adult_sample_run_in_spec_order:
  "prepare_data_in_spec_order mt19937 fit_count fill_with_count over_50k input_sizes adult_sample =
     Inr (3, [adult_features_0], [adult_features_1], [adult_features_2], 1, 1)"
proof -
  have nt: "drop_column ''income'' (adult_frame [(0, adult_row_0), (1, adult_row_1), (2, adult_row_2)]) =
      Inr \<lparr>df_columns = butlast column_names, df_object = butlast adult_sample_object,
        df_rows = [(0, butlast adult_row_0), (1, butlast adult_row_1), (2, butlast adult_row_2)]\<rparr>"
    by (simp only: adult_sample_no_target list.map prod.case adult_row_0_no_target
        adult_row_1_no_target adult_row_2_no_target)
  show ?thesis
    unfolding prepare_data_in_spec_order_def adult_sample_loaded
    by (simp only: sum.case prod.case nt adult_sample_matrix_all split_three_rows split_two_rows)
      (simp add: input_sizes_def)
qed

lemma adult_sample_length: "length adult_sample = 3"
  by (simp add: adult_sample_def)

lemma adult_sample_first_split:
  "shuffle_split mt19937 (length adult_sample) (round_double (1 / 10)) 42 = Inr ([1, 2], [0])"
  by (simp only: adult_sample_length first_split_of_three)

text \<open>
  The three sample records, with a transformer that cannot be fitted: the run ends with
  its exception, and both files are there.
\<close>

theorem written_splits_have_header_witness:
  "prepare_data mt19937 fit_refused fill_with_count over_50k input_sizes adult_sample =
     ([To_csv ''data/train.csv''
         \<lparr>csv_header = column_names, csv_records = [adult_row_1, adult_row_2]\<rparr>,
       To_csv ''data/test.csv'' \<lparr>csv_header = column_names, csv_records = [adult_row_0]\<rparr>],
      Inl (ValueError ''Cannot use mean strategy with non-numeric data'')) \<and>
   load_adult adult_sample =
     Inr (adult_frame [(0, adult_row_0), (1, adult_row_1), (2, adult_row_2)]) \<and>
   shuffle_split mt19937 (length adult_sample) (round_double (1 / 10)) 42 = Inr ([1, 2], [0]) \<and>
   length column_names = 15 \<and>
   list_all (\<lambda>r. length r = length column_names) [adult_row_0] \<and>
   take 2 (fst (prepare_data mt19937 fit_refused fill_with_count over_50k input_sizes
                  adult_sample)) =
     [To_csv ''data/train.csv''
        \<lparr>csv_header = column_names, csv_records = [adult_row_1, adult_row_2]\<rparr>,
      To_csv ''data/test.csv'' \<lparr>csv_header = column_names, csv_records = [adult_row_0]\<rparr>]"
proof -
  let ?df = "adult_frame [(0, adult_row_0), (1, adult_row_1), (2, adult_row_2)]"
  let ?f = "\<lparr>csv_header = column_names, csv_records = [adult_row_0]\<rparr>"
  note t = written_splits_have_header [of "''data/test.csv''" ?f mt19937 fit_refused
      fill_with_count over_50k input_sizes adult_sample ?df "[1, 2]" "[0]"]
  have in_log: "To_csv ''data/test.csv'' ?f \<in>
      set (fst (prepare_data mt19937 fit_refused fill_with_count over_50k input_sizes adult_sample))"
    by (simp add: adult_sample_run_refused)
  from t have 1: "length column_names = 15" by (rule conjunct1)
  from t in_log have "list_all (\<lambda>r. length r = length (csv_header ?f)) (csv_records ?f)"
    by blast
  then have 2: "list_all (\<lambda>r. length r = length column_names) [adult_row_0]" by simp
  from t adult_sample_loaded adult_sample_first_split
  have "take 2 (fst (prepare_data mt19937 fit_refused fill_with_count over_50k input_sizes
      adult_sample)) =
      [To_csv ''data/train.csv''
         \<lparr>csv_header = column_names, csv_records = map (\<lambda>p. snd (df_rows ?df ! p)) [1, 2]\<rparr>,
       To_csv ''data/test.csv''
         \<lparr>csv_header = column_names, csv_records = map (\<lambda>p. snd (df_rows ?df ! p)) [0]\<rparr>]"
    by blast
  then have 3: "take 2 (fst (prepare_data mt19937 fit_refused fill_with_count over_50k
      input_sizes adult_sample)) =
      [To_csv ''data/train.csv''
         \<lparr>csv_header = column_names, csv_records = [adult_row_1, adult_row_2]\<rparr>,
       To_csv ''data/test.csv'' ?f]"
    by (simp add: adult_frame_def)
  from adult_sample_run_refused adult_sample_loaded adult_sample_first_split 1 2 3
  show ?thesis by blast
qed

text \<open>
  On the three sample records row 0 goes to the test partition, row 1 to the training
  partition and row 2 to the validation partition.
\<close>

theorem partitions_pairwise_disjoint_witness:
  "\<exists>a. snd (prepare_data mt19937 fit_count fill_with_count over_50k input_sizes adult_sample) =
         Inr a \<and>
       map fst (df_rows (test_frame a)) = [0] \<and>
       map fst (df_rows (train_val_frame a)) = [1, 2] \<and>
       length (labelled_matrix a) = 2 \<and>
       train_matrix a = [labelled_matrix a ! 0] \<and>
       val_matrix a = [labelled_matrix a ! 1] \<and>
       distinct ([0] @ [[1, 2] ! 0] @ [[1, 2::nat] ! 1])"
proof -
  obtain a where
    run: "snd (prepare_data mt19937 fit_count fill_with_count over_50k input_sizes adult_sample) =
      Inr a"
    by (simp add: adult_sample_run)
  from partitions_pairwise_disjoint [OF run]
  obtain df df_no_target ind_train_val ind_test ind_train ind_val where
    ind1: "shuffle_split mt19937 (length adult_sample) (round_double (1 / 10)) 42 =
       Inr (ind_train_val, ind_test)"
    and ind2: "shuffle_split mt19937 (length ind_train_val) (round_double (1 / 5)) 42 =
       Inr (ind_train, ind_val)"
    and labels: "map fst (df_rows (test_frame a)) = ind_test"
      "map fst (df_rows (train_val_frame a)) = ind_train_val"
    and len: "length (labelled_matrix a) = length ind_train_val"
    and parts: "train_matrix a = map (\<lambda>p. labelled_matrix a ! p) ind_train"
      "val_matrix a = map (\<lambda>p. labelled_matrix a ! p) ind_val"
    and dist: "distinct (ind_test @ map (\<lambda>p. ind_train_val ! p) ind_train @
       map (\<lambda>p. ind_train_val ! p) ind_val)"
    by blast
  from ind1 have 1: "ind_train_val = [1, 2]" "ind_test = [0]"
    by (simp_all only: adult_sample_first_split sum.inject prod.inject)
  have "length ind_train_val = 2" by (simp add: 1)
  with ind2 have 2: "ind_train = [0]" "ind_val = [1]"
    by (simp_all only: second_split_of_two sum.inject prod.inject)
  from run labels len parts dist show ?thesis
    unfolding 1 2 by (intro exI [of _ a]) simp
qed

text \<open>
  Claim C3 as stated fails on the three sample records. In the notebook the transformer is
  fitted on two rows, those left after the test split, and the test partition is written
  with its missing value; in the order of the specification it is fitted on all three
  rows and the test partition is imputed.
\<close>

theorem imputation_follows_test_split_example:
  "map_sum id preprocessor
     (snd (prepare_data mt19937 fit_count fill_with_count over_50k input_sizes adult_sample)) =
     Inr 2 \<and>
   map_sum id fst
     (prepare_data_in_spec_order mt19937 fit_count fill_with_count over_50k input_sizes
        adult_sample) = Inr 3 \<and>
   fst (prepare_data mt19937 fit_count fill_with_count over_50k input_sizes adult_sample) ! 1 =
     To_csv ''data/test.csv'' \<lparr>csv_header = column_names, csv_records = [adult_row_0]\<rparr> \<and>
   hd adult_row_0 = NaN \<and>
   map_sum id (fst \<circ> snd)
     (prepare_data_in_spec_order mt19937 fit_count fill_with_count over_50k input_sizes
        adult_sample) = Inr [adult_features_0] \<and>
   adult_features_0 ! 1 = 3"
  by (simp add: adult_sample_run adult_sample_run_in_spec_order adult_row_0_def
      adult_features_0_def)

text \<open>
  The three sample records, with the example libraries; the first two files are the same
  with a transformer that cannot be fitted.
\<close>

theorem test_split_precedes_imputation_witness:
  "\<exists>a written.
     prepare_data mt19937 fit_count fill_with_count over_50k input_sizes adult_sample =
       (written, Inr a) \<and>
     preprocessor a = 2 \<and>
     (\<exists>df. load_adult adult_sample = Inr df \<and>
           train_test_split mt19937 (df_rows df) (round_double (1 / 10)) 42 =
             Inr (df_rows (train_val_frame a), df_rows (test_frame a))) \<and>
     map fst (df_rows (train_val_frame a)) = [1, 2] \<and>
     map fst (df_rows (test_frame a)) = [0] \<and>
     train_test_split mt19937 (labelled_matrix a) (round_double (1 / 5)) 42 =
       Inr (train_matrix a, val_matrix a) \<and>
     xgb_model a = (1, 1) \<and>
     take 2 (fst (prepare_data mt19937 fit_refused fill_with_count over_50k input_sizes
                    adult_sample)) = take 2 written"
proof -
  obtain written a where
    run: "prepare_data mt19937 fit_count fill_with_count over_50k input_sizes adult_sample =
      (written, Inr a)"
    and a: "a = \<lparr>train_val_frame = adult_frame [(1, adult_row_1), (2, adult_row_2)],
           test_frame = adult_frame [(0, adult_row_0)],
           preprocessor = 2,
           labelled_matrix = [adult_features_1, adult_features_2],
           train_matrix = [adult_features_1],
           val_matrix = [adult_features_2],
           xgb_model = (1, 1)\<rparr>"
    by (simp add: adult_sample_run)
  note t = test_split_precedes_imputation [OF run, of fit_refused fill_with_count over_50k
      input_sizes]
  from t have s1: "\<exists>df. load_adult adult_sample = Inr df \<and>
      train_test_split mt19937 (df_rows df) (round_double (1 / 10)) 42 =
        Inr (df_rows (train_val_frame a), df_rows (test_frame a))"
    by (rule conjunct1)
  from t have s2: "train_test_split mt19937 (labelled_matrix a) (round_double (1 / 5)) 42 =
      Inr (train_matrix a, val_matrix a)"
    by (elim conjE)
  from t have s3: "take 2 (fst (prepare_data mt19937 fit_refused fill_with_count over_50k
      input_sizes adult_sample)) = take 2 written"
    by (elim conjE)
  have facts: "preprocessor a = 2" "map fst (df_rows (train_val_frame a)) = [1, 2]"
    "map fst (df_rows (test_frame a)) = [0]" "xgb_model a = (1, 1)"
    by (simp_all add: a adult_frame_def)
  show ?thesis
    by (intro exI [of _ a] exI [of _ written] conjI) (fact run facts s1 s2 s3)+
qed

end
